theory Spec2Isabelle
  imports Complex_Main "HOL-Library.Sublist" "HOL-Library.Log_Nat"
begin

section \<open>JavaScript numbers\<close>

text \<open>
  The program computes amounts, date differences and tolerances with JavaScript numbers,
  that is IEEE 754 binary64 values. A finite value is kept as the rational it denotes,
  and every arithmetic operation rounds its exact result to the nearest binary64 value
  (ties to even), overflowing to an infinity. The sign of zero is not kept: nothing in
  the program observes it (\<open>-0 === 0\<close>, \<open>Math.abs(-0) = 0\<close>).
\<close>

datatype js_number = NaN | PosInf | NegInf | Fin rat

definition pow2 :: "int \<Rightarrow> rat" where
  "pow2 e = (if 0 \<le> e then 2 ^ nat e else 1 / 2 ^ nat (- e))"

definition floor_log2 :: "rat \<Rightarrow> int" where
  \<comment> \<open>for \<open>0 < a\<close>: the exponent \<open>e\<close> with \<open>2^e \<le> a < 2^(e+1)\<close>\<close>
  "floor_log2 a =
     (let p = fst (quotient_of a); q = snd (quotient_of a); e0 = bitlen p - bitlen q
      in if pow2 e0 \<le> a then e0 else e0 - 1)"

definition round_half_even :: "rat \<Rightarrow> int" where
  "round_half_even x =
     (let f = \<lfloor>x\<rfloor>; r = x - of_int f
      in if r < 1 / 2 then f else if 1 / 2 < r then f + 1 else if even f then f else f + 1)"

definition round_double :: "rat \<Rightarrow> js_number" where
  \<comment> \<open>53 significant bits, least exponent -1022 (subnormals below); a rounded value of
      \<open>2^1024\<close> or more overflows\<close>
  "round_double q =
     (if q = 0 then Fin 0
      else let a = \<bar>q\<bar>;
               e = max (floor_log2 a) (- 1022);
               ulp = pow2 (e - 52);
               v = of_int (round_half_even (a / ulp)) * ulp
           in if 1024 \<le> floor_log2 v then (if 0 < q then PosInf else NegInf)
              else Fin (if 0 < q then v else - v))"

fun js_mul :: "js_number \<Rightarrow> js_number \<Rightarrow> js_number" where
  "js_mul (Fin a) (Fin b) = round_double (a * b)"
| "js_mul NaN y = NaN"
| "js_mul x NaN = NaN"
| "js_mul (Fin a) y = (if a = 0 then NaN else if (0 < a) = (y = PosInf) then PosInf else NegInf)"
| "js_mul x (Fin b) = (if b = 0 then NaN else if (0 < b) = (x = PosInf) then PosInf else NegInf)"
| "js_mul x y = (if x = y then PosInf else NegInf)"

fun js_sub :: "js_number \<Rightarrow> js_number \<Rightarrow> js_number" where
  "js_sub (Fin a) (Fin b) = round_double (a - b)"
| "js_sub NaN y = NaN"
| "js_sub x NaN = NaN"
| "js_sub (Fin a) PosInf = NegInf"
| "js_sub (Fin a) NegInf = PosInf"
| "js_sub x (Fin b) = x"
| "js_sub x y = (if x = y then NaN else x)"

fun js_neg :: "js_number \<Rightarrow> js_number" where
  "js_neg NaN = NaN"
| "js_neg PosInf = NegInf"
| "js_neg NegInf = PosInf"
| "js_neg (Fin a) = Fin (- a)"

fun js_abs :: "js_number \<Rightarrow> js_number" where
  "js_abs NaN = NaN"
| "js_abs PosInf = PosInf"
| "js_abs NegInf = PosInf"
| "js_abs (Fin a) = Fin \<bar>a\<bar>"

fun js_lt :: "js_number \<Rightarrow> js_number \<Rightarrow> bool" where
  "js_lt (Fin a) (Fin b) = (a < b)"
| "js_lt NaN y = False"
| "js_lt x NaN = False"
| "js_lt PosInf y = False"
| "js_lt x PosInf = True"
| "js_lt x NegInf = False"
| "js_lt NegInf y = True"

definition js_gt :: "js_number \<Rightarrow> js_number \<Rightarrow> bool" where
  "js_gt x y = js_lt y x"

definition js_eq :: "js_number \<Rightarrow> js_number \<Rightarrow> bool" where
  \<comment> \<open>\<open>===\<close> on numbers: NaN equals nothing\<close>
  "js_eq x y = (x \<noteq> NaN \<and> x = y)"

definition js_le :: "js_number \<Rightarrow> js_number \<Rightarrow> bool" where
  "js_le x y = (js_lt x y \<or> js_eq x y)"

section \<open>Data of the ledger matcher\<close>

text \<open>
  Strings are lists of characters, one character for one UTF-16 code unit (the model
  covers the code units below 256). A \<open>Date\<close> is its time value in milliseconds, or
  \<open>None\<close> for an invalid date, whose \<open>getTime()\<close> is NaN.
\<close>

record Order =
  date :: "int option"
  amount :: js_number
  items :: "string list"

text \<open>
  The fields of the ledger library's \<open>TransactionDetail\<close> that the program reads.
  \<open>memo\<close> and \<open>payee_name\<close> are \<open>None\<close> when null or undefined.
\<close>

record TransactionDetail =
  td_id :: string
  td_date :: string
  td_amount :: js_number
  memo :: "string option"
  payee_name :: "string option"
  deleted :: bool

record Match =
  dateDifference :: js_number
  priceDifference :: js_number
  orderIndex :: nat
  transactionId :: string

text \<open>\<open>order\<close> is \<open>None\<close> when \<open>orders[match.orderIndex]\<close> is undefined.\<close>

record FinalMatch =
  fm_transactionId :: string
  order :: "Order option"

text \<open>
  The two tolerances as read from the environment (defaults 0.5 and 4), and the object's
  state. The cache \<open>transactions\<close> is a JavaScript object used as a dictionary: its
  entries are kept in iteration order, which for keys that are not array indices (the
  ledger's identifiers are UUIDs) is insertion order.
\<close>

record config =
  YNAB_ACCEPTABLE_DOLLAR_DIFFERENCE :: js_number
  YNAB_ACCEPTABLE_DATE_DIFFERENCE :: js_number

record YNAB =
  transactionsServerKnowledge :: "int option"
  transactions :: "(string \<times> TransactionDetail) list"

definition getTime :: "int option \<Rightarrow> js_number" where
  "getTime d = (case d of None \<Rightarrow> NaN | Some t \<Rightarrow> Fin (of_int t))"

definition dateTolerance :: "config \<Rightarrow> js_number" where
  "dateTolerance cfg = js_mul (js_mul (YNAB_ACCEPTABLE_DATE_DIFFERENCE cfg) (Fin 86400)) (Fin 1000)"

definition dollarTolerance :: "config \<Rightarrow> js_number" where
  "dollarTolerance cfg = js_mul (YNAB_ACCEPTABLE_DOLLAR_DIFFERENCE cfg) (Fin 1000)"

definition memoPresent :: "TransactionDetail \<Rightarrow> bool" where
  \<comment> \<open>\<open>transaction.memo && transaction.memo.length > 0\<close>\<close>
  "memoPresent t = (case memo t of None \<Rightarrow> False | Some s \<Rightarrow> 0 < length s)"

section \<open>matchTransactions\<close>

text \<open>
  The inner loop of \<open>matchTransactions\<close> for one order: the entries of the cache in
  iteration order. \<open>parseDate s\<close> stands for \<open>new Date(s).getTime()\<close>, a built-in
  of the host. A perfect match ends the scan of this order (\<open>continue orderLoop\<close>).
\<close>

definition orderDateDifference :: "(string \<Rightarrow> js_number) \<Rightarrow> Order \<Rightarrow> TransactionDetail \<Rightarrow> js_number" where
  "orderDateDifference parseDate ord t =
     js_abs (js_sub (getTime (date ord)) (parseDate (td_date t)))"

definition orderPriceDifference :: "Order \<Rightarrow> TransactionDetail \<Rightarrow> js_number" where
  "orderPriceDifference ord t = js_abs (js_sub (js_abs (amount ord)) (js_abs (td_amount t)))"

fun scanTransactions ::
  "config \<Rightarrow> (string \<Rightarrow> js_number) \<Rightarrow> nat \<Rightarrow> Order \<Rightarrow> (string \<times> TransactionDetail) list \<Rightarrow> Match list"
where
  "scanTransactions cfg parseDate i ord [] = []"
| "scanTransactions cfg parseDate i ord ((tid, t) # rest) =
     (if memoPresent t then scanTransactions cfg parseDate i ord rest
      else
        let dd = orderDateDifference parseDate ord t;
            pd = orderPriceDifference ord t;
            pushed =
              (if js_le dd (dateTolerance cfg) \<and> js_le pd (dollarTolerance cfg)
               then [\<lparr>dateDifference = dd, priceDifference = pd,
                      orderIndex = i, transactionId = tid\<rparr>]
               else [])
        in if js_eq dd (Fin 0) \<and> js_eq pd (Fin 0) then pushed
           else pushed @ scanTransactions cfg parseDate i ord rest)"

text \<open>
  The two tests of the loop body and the candidate it pushes, by name.
\<close>

definition perfectMatch :: "(string \<Rightarrow> js_number) \<Rightarrow> Order \<Rightarrow> TransactionDetail \<Rightarrow> bool" where
  "perfectMatch parseDate ord t =
     (js_eq (orderDateDifference parseDate ord t) (Fin 0) \<and> js_eq (orderPriceDifference ord t) (Fin 0))"

definition withinTolerance :: "config \<Rightarrow> (string \<Rightarrow> js_number) \<Rightarrow> Order \<Rightarrow> TransactionDetail \<Rightarrow> bool" where
  "withinTolerance cfg parseDate ord t =
     (js_le (orderDateDifference parseDate ord t) (dateTolerance cfg)
      \<and> js_le (orderPriceDifference ord t) (dollarTolerance cfg))"

definition candidateFor :: "(string \<Rightarrow> js_number) \<Rightarrow> nat \<Rightarrow> Order \<Rightarrow> string \<Rightarrow> TransactionDetail \<Rightarrow> Match" where
  "candidateFor parseDate i ord tid t =
     \<lparr>dateDifference = orderDateDifference parseDate ord t,
      priceDifference = orderPriceDifference ord t,
      orderIndex = i, transactionId = tid\<rparr>"

definition nearOrPerfectMatches ::
  "config \<Rightarrow> (string \<Rightarrow> js_number) \<Rightarrow> Order list \<Rightarrow> (string \<times> TransactionDetail) list \<Rightarrow> Match list"
where
  "nearOrPerfectMatches cfg parseDate orders cache =
     concat (map (\<lambda>(i, ord). scanTransactions cfg parseDate i ord cache) (enumerate 0 orders))"

text \<open>The comparator handed to \<open>sort\<close>, with all seven of its statements.\<close>

definition compareMatches :: "Match \<Rightarrow> Match \<Rightarrow> int" where
  "compareMatches a b =
     (if js_lt (dateDifference a) (dateDifference b) then - 1
      else if js_gt (dateDifference a) (dateDifference b) then 1
      else if js_lt (priceDifference a) (priceDifference b) then - 1
      else if js_gt (priceDifference a) (priceDifference b) then 1
      else if js_gt (priceDifference a) (priceDifference b) then - 1
      else if js_lt (priceDifference a) (priceDifference b) then 1
      else 0)"

text \<open>
  The comparator the specification describes: ascending by date difference, then
  ascending by price difference, 0 on a full tie.
\<close>

definition compareAscending :: "Match \<Rightarrow> Match \<Rightarrow> int" where
  "compareAscending a b =
     (if js_lt (dateDifference a) (dateDifference b) then - 1
      else if js_lt (dateDifference b) (dateDifference a) then 1
      else if js_lt (priceDifference a) (priceDifference b) then - 1
      else if js_lt (priceDifference b) (priceDifference a) then 1
      else 0)"

text \<open>
  \<open>Array.prototype.sort\<close> is stable: elements that compare 0 keep their order. It is
  modelled as insertion from the right, an element going before the first one it does
  not come after.
\<close>

fun insertBy :: "('a \<Rightarrow> 'a \<Rightarrow> int) \<Rightarrow> 'a \<Rightarrow> 'a list \<Rightarrow> 'a list" where
  "insertBy cmp x [] = [x]"
| "insertBy cmp x (y # ys) = (if cmp x y \<le> 0 then x # y # ys else y # insertBy cmp x ys)"

definition sortBy :: "('a \<Rightarrow> 'a \<Rightarrow> int) \<Rightarrow> 'a list \<Rightarrow> 'a list" where
  "sortBy cmp xs = foldr (insertBy cmp) xs []"

text \<open>
  The \<open>while\<close> loop: \<open>shift\<close> the first candidate, drop every other candidate that
  shares its transaction or its order, push it on the result.
\<close>

fun acceptMatches :: "Match list \<Rightarrow> Match list" where
  "acceptMatches [] = []"
| "acceptMatches (m # ms) =
     m # acceptMatches
           (filter (\<lambda>p. transactionId p \<noteq> transactionId m \<and> orderIndex p \<noteq> orderIndex m) ms)"

definition nth_opt :: "'a list \<Rightarrow> nat \<Rightarrow> 'a option" where
  "nth_opt xs i = (if i < length xs then Some (xs ! i) else None)"

definition finalMatch :: "Order list \<Rightarrow> Match \<Rightarrow> FinalMatch" where
  "finalMatch orders m =
     \<lparr>fm_transactionId = transactionId m, order = nth_opt orders (orderIndex m)\<rparr>"

definition acceptedMatches ::
  "config \<Rightarrow> (string \<Rightarrow> js_number) \<Rightarrow> Order list \<Rightarrow> YNAB \<Rightarrow> Match list"
where
  "acceptedMatches cfg parseDate orders s =
     acceptMatches (sortBy compareMatches (nearOrPerfectMatches cfg parseDate orders (transactions s)))"

text \<open>
  The method returns its result and the object's state, which it only reads.
\<close>

definition matchTransactions ::
  "config \<Rightarrow> (string \<Rightarrow> js_number) \<Rightarrow> Order list \<Rightarrow> YNAB \<Rightarrow> FinalMatch list \<times> YNAB"
where
  "matchTransactions cfg parseDate orders s =
     (if length orders = 0 then ([], s)
      else (map (finalMatch orders) (acceptedMatches cfg parseDate orders s), s))"

section \<open>Strings\<close>

fun startsWith :: "string \<Rightarrow> string \<Rightarrow> bool" where
  "startsWith s [] = True"
| "startsWith [] (p # ps) = False"
| "startsWith (c # cs) (p # ps) = (c = p \<and> startsWith cs ps)"

definition endsWith :: "string \<Rightarrow> string \<Rightarrow> bool" where
  "endsWith s p = startsWith (rev s) (rev p)"

fun includes_str :: "string \<Rightarrow> string \<Rightarrow> bool" where
  "includes_str [] p = (p = [])"
| "includes_str (c # cs) p = (startsWith (c # cs) p \<or> includes_str cs p)"

definition isWhiteSpace :: "char \<Rightarrow> bool" where
  \<comment> \<open>TAB, LF, VT, FF, CR, SP, NBSP: the white space and line terminators below 256\<close>
  "isWhiteSpace c = (of_char c \<in> {9, 10, 11, 12, 13, 32, 160 :: nat})"

definition trim :: "string \<Rightarrow> string" where
  "trim s = rev (dropWhile isWhiteSpace (rev (dropWhile isWhiteSpace s)))"

fun split :: "char \<Rightarrow> string \<Rightarrow> string list" where
  "split d [] = [[]]"
| "split d (c # cs) =
     (if c = d then [] # split d cs
      else (case split d cs of [] \<Rightarrow> [[c]] | w # ws \<Rightarrow> (c # w) # ws))"

fun join :: "string \<Rightarrow> string list \<Rightarrow> string" where
  "join sep [] = []"
| "join sep [x] = x"
| "join sep (x # y # ys) = x @ sep @ join sep (y # ys)"

definition toLowerCase :: "string \<Rightarrow> string" where
  \<comment> \<open>A-Z and the capital letters of Latin-1 (all of 192..222 but the sign at 215)\<close>
  "toLowerCase s =
     map (\<lambda>c. let n = of_char c :: nat
               in if (65 \<le> n \<and> n \<le> 90) \<or> (192 \<le> n \<and> n \<le> 222 \<and> n \<noteq> 215)
                  then char_of (n + 32) else c) s"

definition isDigit :: "char \<Rightarrow> bool" where
  "isDigit c = (c \<in> set ''0123456789'')"

definition digitsValue :: "string \<Rightarrow> int" where
  "digitsValue ds = foldl (\<lambda>n c. 10 * n + (of_char c - 48)) 0 ds"

definition pow10 :: "int \<Rightarrow> rat" where
  "pow10 e = (if 0 \<le> e then 10 ^ nat e else 1 / 10 ^ nat (- e))"

text \<open>
  The built-in \<open>parseFloat\<close>: leading white space is skipped, the longest prefix that is
  a decimal literal (sign, \<open>Infinity\<close>, digits, fraction, exponent) is read, and its
  value is rounded to a binary64; NaN when there is no such prefix.
\<close>

definition skipSign :: "string \<Rightarrow> string" where
  "skipSign s = (if startsWith s ''-'' \<or> startsWith s ''+'' then drop 1 s else s)"

definition exponentOf :: "string \<Rightarrow> int" where
  \<comment> \<open>the value of an exponent part at the head of the text, 0 when there is none\<close>
  "exponentOf r =
     (let ed = takeWhile isDigit (skipSign (drop 1 r))
      in if (startsWith r ''e'' \<or> startsWith r ''E'') \<and> ed \<noteq> []
         then (if startsWith (drop 1 r) ''-'' then - digitsValue ed else digitsValue ed)
         else 0)"

definition decimalValue :: "string \<Rightarrow> string \<Rightarrow> string \<Rightarrow> rat" where
  \<comment> \<open>integer digits, fraction digits and the text that follows them\<close>
  "decimalValue ip fp r =
     of_int (digitsValue (ip @ fp)) * pow10 (exponentOf r - int (length fp))"

definition parseUnsigned :: "string \<Rightarrow> rat option" where
  \<comment> \<open>digits, an optional point with digits, an optional exponent; \<open>None\<close> without a digit\<close>
  "parseUnsigned s =
     (let ip = takeWhile isDigit s; r1 = dropWhile isDigit s
      in if startsWith r1 ''.''
         then (let fp = takeWhile isDigit (drop 1 r1)
               in if ip = [] \<and> fp = [] then None
                  else Some (decimalValue ip fp (dropWhile isDigit (drop 1 r1))))
         else if ip = [] then None else Some (decimalValue ip [] r1))"

definition parseFloat :: "string \<Rightarrow> js_number" where
  "parseFloat s =
     (let s0 = dropWhile isWhiteSpace s; neg = startsWith s0 ''-''; s1 = skipSign s0
      in if startsWith s1 ''Infinity'' then (if neg then NegInf else PosInf)
         else (case parseUnsigned s1 of
                 None \<Rightarrow> NaN
               | Some q \<Rightarrow> round_double (if neg then - q else q)))"

section \<open>scanEmail\<close>

text \<open>
  What \<open>scanEmail\<close> reads of a message: the \<open>From\<close> header, the subject, the body
  and the date of its attributes (\<open>None\<close> for an invalid \<open>Date\<close>).
\<close>

record Email =
  e_from :: string
  subject :: string
  body :: string
  attributes_date :: "int option"

text \<open>
  The HTML library answers four queries on the loaded body: the flattened text of every
  \<open>table\<close> in document order, the text of the cells of the table whose id ends with
  \<open>costBreakdownRight\<close>, the \<open>href\<close> attribute (if any) and text of every \<open>a\<close>, and
  the text of the \<open>font\<close> elements of every row of the table whose id ends with
  \<open>itemDetails\<close>.
\<close>

record Document =
  tableTexts :: "string list"
  costBreakdownText :: string
  anchors :: "(string option \<times> string) list"
  itemRowTexts :: "string list"

text \<open>
  The host: the HTML library's \<open>load\<close>, which accepts every string, and
  \<open>Date.prototype.setHours(0, 0, 0, 0)\<close> on a valid date, which depends on the local
  time zone and answers \<open>None\<close> for NaN.
\<close>

record Host =
  load :: "string \<Rightarrow> Document"
  setHoursMidnight :: "int \<Rightarrow> int option"

datatype exn = RangeError | TypeError

datatype console =
  ConsoleLog string
  | ConsoleInfoFound js_number int "string list"
  | ConsoleErrorExn exn
  | ConsoleError string

definition orderSender :: string where
  "orderSender = ''auto-confirm@amazon.com''"

definition isAmazonEmail :: "Email \<Rightarrow> bool" where
  "isAmazonEmail email = includes_str (e_from email) orderSender"

text \<open>\<open>body.replace(/"x_/g, '"')\<close>\<close>

fun replaceForwarded :: "string \<Rightarrow> string" where
  "replaceForwarded [] = []"
| "replaceForwarded (c # cs) =
     (if startsWith (c # cs) (CHR 0x22 # ''x_'') then CHR 0x22 # replaceForwarded (drop 2 cs)
      else c # replaceForwarded cs)"

text \<open>
  The first match of \<open>/\<dollar>(\d+\.\d{2})/\<close> in a text, as its group 1. The greedy
  \<open>\d+\<close> never has to give a digit back: what follows it must be the point.
\<close>

fun matchDollar :: "string \<Rightarrow> string option" where
  "matchDollar [] = None"
| "matchDollar (c # cs) =
     (let ds = takeWhile isDigit cs; r = dropWhile isDigit cs
      in if c = CHR 0x24 \<and> ds \<noteq> [] \<and> startsWith r ''.'' \<and> 3 \<le> length r
            \<and> isDigit (r ! 1) \<and> isDigit (r ! 2)
         then Some (ds @ take 3 r)
         else matchDollar cs)"

text \<open>Method 1 for the amount: the \<open>each\<close> over the tables, left by \<open>return false\<close>.\<close>

fun totalFromTables :: "string list \<Rightarrow> js_number" where
  "totalFromTables [] = Fin 0"
| "totalFromTables (text # rest) =
     (if includes_str text ''Total''
      then (case matchDollar text of
              Some m \<Rightarrow> parseFloat m
            | None \<Rightarrow> totalFromTables rest)
      else totalFromTables rest)"

definition totalFromCostBreakdown :: "string \<Rightarrow> js_number \<Rightarrow> js_number" where
  "totalFromCostBreakdown cells amount0 =
     (let costText = trim cells
      in if costText \<noteq> [] \<and> startsWith costText [CHR 0x24]
         then parseFloat (drop 1 costText) else amount0)"

definition cleanTitle :: "string \<Rightarrow> string" where
  "cleanTitle title0 =
     (if endsWith title0 ''...''
      then let title1 = join '' '' (butlast (split CHR '' '' title0));
               title2 = (if endsWith title1 '','' then butlast title1 else title1)
           in title2 @ ''..''
      else title0)"

definition excludePatterns :: "string list" where
  "excludePatterns =
     [''View or edit order'', ''Your Orders'', ''Your Account'', ''Buy Again'', ''Track package'']"

fun itemsFromAnchors :: "(string option \<times> string) list \<Rightarrow> string list" where
  "itemsFromAnchors [] = []"
| "itemsFromAnchors ((h, linkText) # rest) =
     (let href = (case h of None \<Rightarrow> [] | Some x \<Rightarrow> x);
          text = trim linkText
      in if (includes_str href ''/dp/'' \<or> includes_str href ''asin'')
            \<and> 0 < length text \<and> length text < 200
            \<and> \<not> list_ex (\<lambda>pattern. includes_str text pattern) excludePatterns
         then cleanTitle text # itemsFromAnchors rest
         else itemsFromAnchors rest)"

fun itemsFromRows :: "string list \<Rightarrow> string list" where
  "itemsFromRows [] = []"
| "itemsFromRows (fontText # rest) =
     (let title = cleanTitle (trim fontText)
      in if length title = 0 then itemsFromRows rest else title # itemsFromRows rest)"

text \<open>
  The body of the \<open>try\<close>. Its one statement that throws is the \<open>console.info\<close>:
  \<open>dateFormat\<close> raises a RangeError on an invalid date, and the line is not printed.
\<close>

definition scanDocument :: "Host \<Rightarrow> Document \<Rightarrow> Email \<Rightarrow> (exn + Order option) \<times> console list" where
  "scanDocument host doc email =
     (let amount1 = totalFromTables (tableTexts doc);
          amount2 = (if js_eq amount1 (Fin 0)
                     then totalFromCostBreakdown (costBreakdownText doc) amount1 else amount1)
      in if js_eq amount2 (Fin 0) then (Inr None, [])
         else
           let items1 = itemsFromAnchors (anchors doc);
               items2 = (if length items1 = 0 then itemsFromRows (itemRowTexts doc) else items1)
           in if length items2 = 0 then (Inr None, [])
              else (case (case attributes_date email of None \<Rightarrow> None
                          | Some t \<Rightarrow> setHoursMidnight host t) of
                      None \<Rightarrow> (Inl RangeError, [])
                    | Some d \<Rightarrow>
                        (Inr (Some \<lparr>date = Some d,
                                     amount = js_neg (js_mul amount2 (Fin 1000)),
                                     items = items2\<rparr>),
                         [ConsoleInfoFound amount2 d items2])))"

definition scanEmail :: "Host \<Rightarrow> Email \<Rightarrow> (exn + Order option) \<times> console list" where
  "scanEmail host email =
     (if \<not> isAmazonEmail email
      then (Inr None,
            [ConsoleLog ''Ignoring... not an Amazon order email (subject or body mismatch)''])
      else
        let doc = load host (replaceForwarded (body email))
        in (case scanDocument host doc email of
              (Inl e, out) \<Rightarrow>
                (Inr None,
                 out @ [ConsoleErrorExn e,
                        ConsoleError (''This failed on email with subject: '' @ subject email)])
            | (Inr r, out) \<Rightarrow> (Inr r, out)))"


section \<open>The transaction cache\<close>

text \<open>
  The answer of the ledger's \<open>getTransactions\<close>, and the three operations the program
  applies to the cache object: \<open>key in obj\<close>, \<open>obj[key] = value\<close> (an existing key keeps
  its place, a new one goes last) and \<open>delete obj[key]\<close>. Keys are the ledger's
  identifiers: none is an array index or a property name of \<open>Object.prototype\<close>.
\<close>

record Response =
  r_transactions :: "TransactionDetail list"
  server_knowledge :: int

definition hasKey :: "string \<Rightarrow> (string \<times> 'v) list \<Rightarrow> bool" where
  "hasKey k c = (k \<in> set (map fst c))"

fun setEntry :: "string \<Rightarrow> 'v \<Rightarrow> (string \<times> 'v) list \<Rightarrow> (string \<times> 'v) list" where
  "setEntry k v [] = [(k, v)]"
| "setEntry k v ((k', v') # rest) =
     (if k' = k then (k, v) # rest else (k', v') # setEntry k v rest)"

definition deleteEntry :: "string \<Rightarrow> (string \<times> 'v) list \<Rightarrow> (string \<times> 'v) list" where
  "deleteEntry k c = filter (\<lambda>e. fst e \<noteq> k) c"

definition payeeIsAmazon :: "TransactionDetail \<Rightarrow> bool" where
  \<comment> \<open>\<open>t.payee_name?.toLowerCase().includes("amazon")\<close>\<close>
  "payeeIsAmazon t =
     (case payee_name t of None \<Rightarrow> False | Some p \<Rightarrow> includes_str (toLowerCase p) ''amazon'')"

definition memoEmpty :: "TransactionDetail \<Rightarrow> bool" where
  \<comment> \<open>\<open>typeof t.memo !== "string" || t.memo.length == 0\<close>\<close>
  "memoEmpty t = (case memo t of None \<Rightarrow> True | Some m \<Rightarrow> length m = 0)"

text \<open>The \<open>forEach\<close> of \<open>fetchTransactions\<close> over the filtered transactions.\<close>

fun cacheEach ::
  "TransactionDetail list \<Rightarrow> (string \<times> TransactionDetail) list \<Rightarrow> (string \<times> TransactionDetail) list"
where
  "cacheEach [] c = c"
| "cacheEach (t # ts) c =
     cacheEach ts
       (if deleted t \<and> hasKey (td_id t) c then deleteEntry (td_id t) c
        else setEntry (td_id t) t c)"

text \<open>
  \<open>fetchTransactions\<close>, given what the ledger answered. The lines it prints are left out.
\<close>

definition fetchTransactions :: "Response \<Rightarrow> YNAB \<Rightarrow> YNAB" where
  "fetchTransactions resp s =
     \<lparr>transactionsServerKnowledge = Some (server_knowledge resp),
      transactions =
        cacheEach (filter (\<lambda>t. payeeIsAmazon t \<and> memoEmpty t) (r_transactions resp))
          (transactions s)\<rparr>"

section \<open>updateTransactions\<close>

text \<open>One element of the request handed to the ledger's \<open>updateTransactions\<close>.\<close>

record Update =
  u_id :: string
  u_memo :: string
  approved :: bool

definition setMemo ::
  "string \<Rightarrow> string \<Rightarrow> (string \<times> TransactionDetail) list \<Rightarrow> (string \<times> TransactionDetail) list"
where
  \<comment> \<open>\<open>transaction.memo = memo\<close> on the object stored under the key\<close>
  "setMemo k m c = map (\<lambda>e. if fst e = k then (fst e, (snd e)\<lparr>memo := Some m\<rparr>) else e) c"

text \<open>
  The callback of \<open>matches.map\<close>, match after match. Reading \<open>items\<close> of an undefined
  order or writing \<open>memo\<close> of an undefined transaction throws a TypeError; what was
  written before stays written.
\<close>

fun updateEach ::
  "FinalMatch list \<Rightarrow> (string \<times> TransactionDetail) list
     \<Rightarrow> (exn + Update list) \<times> (string \<times> TransactionDetail) list"
where
  "updateEach [] c = (Inr [], c)"
| "updateEach (m # ms) c =
     (case order m of
        None \<Rightarrow> (Inl TypeError, c)
      | Some ord \<Rightarrow>
          if \<not> hasKey (fm_transactionId m) c then (Inl TypeError, c)
          else
            (case updateEach ms (setMemo (fm_transactionId m) (join '', '' (items ord)) c) of
               (Inl e, c') \<Rightarrow> (Inl e, c')
             | (Inr us, c') \<Rightarrow>
                 (Inr (\<lparr>u_id = fm_transactionId m, u_memo = join '', '' (items ord),
                        approved = False\<rparr> # us), c')))"

text \<open>
  The method answers the request it hands to the ledger (\<open>None\<close> when it returns
  without one), or the exception it throws, and the state it leaves.
\<close>

definition updateTransactions :: "FinalMatch list \<Rightarrow> YNAB \<Rightarrow> (exn + Update list option) \<times> YNAB" where
  "updateTransactions matches s =
     (if length matches = 0 then (Inr None, s)
      else (case updateEach matches (transactions s) of
              (Inl e, c') \<Rightarrow> (Inl e, s\<lparr>transactions := c'\<rparr>)
            | (Inr us, c') \<Rightarrow> (Inr (Some us), s\<lparr>transactions := c'\<rparr>)))"

definition matchAndUpdate ::
  "config \<Rightarrow> (string \<Rightarrow> js_number) \<Rightarrow> Order list \<Rightarrow> YNAB \<Rightarrow> (exn + Update list option) \<times> YNAB"
where
  "matchAndUpdate cfg parseDate orders s =
     (let r = matchTransactions cfg parseDate orders s
      in if 0 < length (fst r) then updateTransactions (fst r) (snd r) else (Inr None, snd r))"

text \<open>
  A run of the object: it starts with an empty cache, and each step is a
  \<open>fetchTransactions\<close> with the ledger's answer or a \<open>matchAndUpdate\<close> on the orders
  collected so far.
\<close>

datatype event = Fetch Response | MatchAndUpdate "Order list"

definition initialYNAB :: YNAB where
  "initialYNAB = \<lparr>transactionsServerKnowledge = None, transactions = []\<rparr>"

fun run :: "config \<Rightarrow> (string \<Rightarrow> js_number) \<Rightarrow> event list \<Rightarrow> YNAB \<Rightarrow> YNAB" where
  "run cfg parseDate [] s = s"
| "run cfg parseDate (Fetch resp # evs) s = run cfg parseDate evs (fetchTransactions resp s)"
| "run cfg parseDate (MatchAndUpdate orders # evs) s =
     run cfg parseDate evs (snd (matchAndUpdate cfg parseDate orders s))"

text \<open>
  Two notions for stating what these methods keep: every entry of a cache is filed under
  its own id and has an Amazon payee; and a cache with every memo blanked.
\<close>

definition cacheAmazon :: "(string \<times> TransactionDetail) list \<Rightarrow> bool" where
  "cacheAmazon c = list_all (\<lambda>e. fst e = td_id (snd e) \<and> payeeIsAmazon (snd e)) c"

definition eraseMemo :: "(string \<times> TransactionDetail) list \<Rightarrow> (string \<times> TransactionDetail) list" where
  "eraseMemo c = map (\<lambda>e. (fst e, (snd e)\<lparr>memo := None\<rparr>)) c"

section \<open>Sample data\<close>

text \<open>
  The default tolerances, three cached transactions of the same amount (the first
  annotated, the third with an empty memo a day later) and two orders, one for each day.
\<close>

definition defaultConfig :: config where
  "defaultConfig =
     \<lparr>YNAB_ACCEPTABLE_DOLLAR_DIFFERENCE = Fin (1 / 2), YNAB_ACCEPTABLE_DATE_DIFFERENCE = Fin 4\<rparr>"

definition sampleParseDate :: "string \<Rightarrow> js_number" where
  "sampleParseDate d =
     (if d = ''2024-01-15'' then Fin 1705276800000
      else if d = ''2024-01-16'' then Fin 1705363200000
      else NaN)"

definition sampleTransaction :: "string \<Rightarrow> string \<Rightarrow> string option \<Rightarrow> bool \<Rightarrow> TransactionDetail" where
  "sampleTransaction k d m del =
     \<lparr>td_id = k, td_date = d, td_amount = Fin (- 42100), memo = m,
      payee_name = Some ''Amazon.com'', deleted = del\<rparr>"

definition sampleOrders :: "Order list" where
  "sampleOrders =
     [\<lparr>date = Some 1705276800000, amount = Fin (- 42100), items = [''Widget A'', ''Widget B'']\<rparr>,
      \<lparr>date = Some 1705363200000, amount = Fin (- 42100), items = [''Widget C'']\<rparr>]"

definition sampleYNAB :: YNAB where
  "sampleYNAB =
     \<lparr>transactionsServerKnowledge = Some 7,
      transactions =
        [(''tx-m'', sampleTransaction ''tx-m'' ''2024-01-15'' (Some ''Books'') False),
         (''tx-a'', sampleTransaction ''tx-a'' ''2024-01-15'' None False),
         (''tx-b'', sampleTransaction ''tx-b'' ''2024-01-16'' (Some []) False)]\<rparr>"

text \<open>
  Two answers of the ledger: one with an Amazon transaction, one of another payee and an
  annotated one; and one with a single deleted Amazon transaction.
\<close>

definition sampleResponse :: Response where
  "sampleResponse =
     \<lparr>r_transactions =
        [sampleTransaction ''tx-a'' ''2024-01-15'' None False,
         (sampleTransaction ''tx-w'' ''2024-01-15'' None False)\<lparr>payee_name := Some ''Walmart''\<rparr>,
         sampleTransaction ''tx-m'' ''2024-01-15'' (Some ''Books'') False],
      server_knowledge = 7\<rparr>"

definition deletedResponse :: Response where
  "deletedResponse =
     \<lparr>r_transactions = [sampleTransaction ''tx-d'' ''2024-01-15'' None True],
      server_knowledge = 8\<rparr>"

text \<open>
  A confirmation message: a host in UTC whose HTML library finds two tables, the second
  with the total, and four links, two of them to products.
\<close>

definition sampleDocument :: "string \<Rightarrow> Document" where
  "sampleDocument totalText =
     \<lparr>tableTexts = [''Items Ordered'', ''Order Total: '' @ totalText @ '' Thank you''],
      costBreakdownText = [],
      anchors =
        [(Some ''https://www.amazon.com/dp/B000000001'', '' Widget A ''),
         (Some ''https://www.amazon.com/gp/css/order-history'', ''Your Orders''),
         (Some ''https://www.amazon.com/dp/B000000002'', ''Widget B''),
         (None, ''Help'')],
      itemRowTexts = []\<rparr>"

definition sampleHost :: "string \<Rightarrow> Host" where
  "sampleHost totalText =
     \<lparr>load = (\<lambda>html. sampleDocument totalText),
      setHoursMidnight = (\<lambda>t. Some (t - t mod 86400000))\<rparr>"

definition sampleEmail :: "string \<Rightarrow> int option \<Rightarrow> Email" where
  "sampleEmail sender received =
     \<lparr>e_from = sender, subject = ''Your Amazon.com order'', body = ''<html></html>'',
      attributes_date = received\<rparr>"

section \<open>Exclusivity of the assignment\<close>

lemma acceptMatches_subset: "set (acceptMatches ms) \<subseteq> set ms"
proof (induction ms rule: acceptMatches.induct)
  case 1
  show ?case by simp
next
  case (2 m ms)
  then show ?case by auto
qed

lemma acceptMatches_distinct_transaction: "distinct (map transactionId (acceptMatches ms))"
proof (induction ms rule: acceptMatches.induct)
  case 1
  show ?case by simp
next
  case (2 m ms)
  have "transactionId m \<notin> transactionId ` set (acceptMatches
          (filter (\<lambda>p. transactionId p \<noteq> transactionId m \<and> orderIndex p \<noteq> orderIndex m) ms))"
    using acceptMatches_subset by fastforce
  with 2 show ?case by simp
qed

lemma acceptMatches_distinct_order: "distinct (map orderIndex (acceptMatches ms))"
proof (induction ms rule: acceptMatches.induct)
  case 1
  show ?case by simp
next
  case (2 m ms)
  have "orderIndex m \<notin> orderIndex ` set (acceptMatches
          (filter (\<lambda>p. transactionId p \<noteq> transactionId m \<and> orderIndex p \<noteq> orderIndex m) ms))"
    using acceptMatches_subset by fastforce
  with 2 show ?case by simp
qed

lemma nearOrPerfectMatches_Nil: "nearOrPerfectMatches cfg parseDate [] cache = []"
  by (simp add: nearOrPerfectMatches_def)

lemma matchTransactions_eq:
  "fst (matchTransactions cfg parseDate orders s) =
     map (finalMatch orders) (acceptedMatches cfg parseDate orders s)"
  by (simp add: matchTransactions_def acceptedMatches_def nearOrPerfectMatches_Nil sortBy_def)

lemma fm_transactionId_finalMatch: "fm_transactionId \<circ> finalMatch orders = transactionId"
  by (rule ext) (simp add: finalMatch_def)

text \<open>
  C1. For all orders and every cache, the result of \<open>matchTransactions\<close> is the image of
  the accepted candidates, no two of which share a transaction id and no two of which
  share an order index; so no transaction id occurs twice in the result either.
\<close>

theorem matchTransactions_exclusive:
  "fst (matchTransactions cfg parseDate orders s) =
     map (finalMatch orders) (acceptedMatches cfg parseDate orders s)
   \<and> distinct (map orderIndex (acceptedMatches cfg parseDate orders s))
   \<and> distinct (map transactionId (acceptedMatches cfg parseDate orders s))
   \<and> distinct (map fm_transactionId (fst (matchTransactions cfg parseDate orders s)))"
proof -
  have "distinct (map fm_transactionId (fst (matchTransactions cfg parseDate orders s)))"
    unfolding matchTransactions_eq
    by (simp add: fm_transactionId_finalMatch acceptedMatches_def acceptMatches_distinct_transaction)
  then show ?thesis
    by (simp add: matchTransactions_eq acceptedMatches_def
        acceptMatches_distinct_transaction acceptMatches_distinct_order)
qed

theorem matchTransactions_exclusive_witness:
  "(fst (matchTransactions defaultConfig sampleParseDate sampleOrders sampleYNAB) =
      map (finalMatch sampleOrders) (acceptedMatches defaultConfig sampleParseDate sampleOrders sampleYNAB)
    \<and> distinct (map orderIndex (acceptedMatches defaultConfig sampleParseDate sampleOrders sampleYNAB))
    \<and> distinct (map transactionId (acceptedMatches defaultConfig sampleParseDate sampleOrders sampleYNAB))
    \<and> distinct (map fm_transactionId
          (fst (matchTransactions defaultConfig sampleParseDate sampleOrders sampleYNAB))))
   \<and> map (\<lambda>m. (orderIndex m, transactionId m))
        (nearOrPerfectMatches defaultConfig sampleParseDate sampleOrders (transactions sampleYNAB)) =
      [(0, ''tx-a''), (1, ''tx-a''), (1, ''tx-b'')]
   \<and> map (\<lambda>m. (orderIndex m, transactionId m))
        (acceptedMatches defaultConfig sampleParseDate sampleOrders sampleYNAB) =
      [(0, ''tx-a''), (1, ''tx-b'')]"
proof (intro conjI)
  show "fst (matchTransactions defaultConfig sampleParseDate sampleOrders sampleYNAB) =
      map (finalMatch sampleOrders) (acceptedMatches defaultConfig sampleParseDate sampleOrders sampleYNAB)"
    and "distinct (map orderIndex (acceptedMatches defaultConfig sampleParseDate sampleOrders sampleYNAB))"
    and "distinct (map transactionId (acceptedMatches defaultConfig sampleParseDate sampleOrders sampleYNAB))"
    and "distinct (map fm_transactionId
          (fst (matchTransactions defaultConfig sampleParseDate sampleOrders sampleYNAB)))"
    using matchTransactions_exclusive [of defaultConfig sampleParseDate sampleOrders sampleYNAB]
    by blast+
  show "map (\<lambda>m. (orderIndex m, transactionId m))
        (nearOrPerfectMatches defaultConfig sampleParseDate sampleOrders (transactions sampleYNAB)) =
      [(0, ''tx-a''), (1, ''tx-a''), (1, ''tx-b'')]"
    by code_simp
  show "map (\<lambda>m. (orderIndex m, transactionId m))
        (acceptedMatches defaultConfig sampleParseDate sampleOrders sampleYNAB) =
      [(0, ''tx-a''), (1, ''tx-b'')]"
    by code_simp
qed

section \<open>The comparator\<close>

text \<open>
  C8. The comparator of the source returns, for every pair of candidates, what the
  comparator ascending by date difference and then by price difference returns: its
  descending clause is never reached.
\<close>

theorem compareMatches_ascending: "compareMatches a b = compareAscending a b"
  by (simp add: compareMatches_def compareAscending_def js_gt_def)

theorem compareMatches_ascending_witness:
  "compareMatches (candidateFor sampleParseDate 0 (sampleOrders ! 0) ''tx-a'' (sampleTransaction ''tx-a'' ''2024-01-15'' None False))
     (candidateFor sampleParseDate 1 (sampleOrders ! 1) ''tx-a'' (sampleTransaction ''tx-a'' ''2024-01-15'' None False)) =
   compareAscending (candidateFor sampleParseDate 0 (sampleOrders ! 0) ''tx-a'' (sampleTransaction ''tx-a'' ''2024-01-15'' None False))
     (candidateFor sampleParseDate 1 (sampleOrders ! 1) ''tx-a'' (sampleTransaction ''tx-a'' ''2024-01-15'' None False))
   \<and> compareAscending (candidateFor sampleParseDate 0 (sampleOrders ! 0) ''tx-a'' (sampleTransaction ''tx-a'' ''2024-01-15'' None False))
     (candidateFor sampleParseDate 1 (sampleOrders ! 1) ''tx-a'' (sampleTransaction ''tx-a'' ''2024-01-15'' None False)) = - 1"
proof
  show "compareMatches (candidateFor sampleParseDate 0 (sampleOrders ! 0) ''tx-a'' (sampleTransaction ''tx-a'' ''2024-01-15'' None False))
     (candidateFor sampleParseDate 1 (sampleOrders ! 1) ''tx-a'' (sampleTransaction ''tx-a'' ''2024-01-15'' None False)) =
   compareAscending (candidateFor sampleParseDate 0 (sampleOrders ! 0) ''tx-a'' (sampleTransaction ''tx-a'' ''2024-01-15'' None False))
     (candidateFor sampleParseDate 1 (sampleOrders ! 1) ''tx-a'' (sampleTransaction ''tx-a'' ''2024-01-15'' None False))"
    by (rule compareMatches_ascending)
  show "compareAscending (candidateFor sampleParseDate 0 (sampleOrders ! 0) ''tx-a'' (sampleTransaction ''tx-a'' ''2024-01-15'' None False))
     (candidateFor sampleParseDate 1 (sampleOrders ! 1) ''tx-a'' (sampleTransaction ''tx-a'' ''2024-01-15'' None False)) = - 1"
    by code_simp
qed

section \<open>Candidates come from unannotated transactions\<close>

lemma set_insertBy: "set (insertBy cmp x ys) = insert x (set ys)"
  by (induction ys) auto

lemma set_sortBy: "set (sortBy cmp xs) = set xs"
  unfolding sortBy_def by (induction xs) (simp_all add: set_insertBy)

lemma scanTransactions_Cons:
  "scanTransactions cfg parseDate i ord ((tid, t) # rest) =
     (if memoPresent t then scanTransactions cfg parseDate i ord rest
      else (if withinTolerance cfg parseDate ord t then [candidateFor parseDate i ord tid t] else [])
           @ (if perfectMatch parseDate ord t then []
              else scanTransactions cfg parseDate i ord rest))"
  by (simp add: Let_def candidateFor_def withinTolerance_def perfectMatch_def)

declare scanTransactions.simps(2) [simp del]

lemma scanTransactions_source:
  "m \<in> set (scanTransactions cfg parseDate i ord cache) \<Longrightarrow>
     orderIndex m = i \<and> (\<exists>t. (transactionId m, t) \<in> set cache \<and> \<not> memoPresent t)"
proof (induction cache)
  case Nil
  then show ?case by simp
next
  case (Cons e cache)
  obtain tid t where e: "e = (tid, t)" by (cases e)
  from Cons.prems consider
      (here) "\<not> memoPresent t" "m = candidateFor parseDate i ord tid t"
    | (later) "m \<in> set (scanTransactions cfg parseDate i ord cache)"
    unfolding e scanTransactions_Cons by (auto split: if_splits)
  then show ?case
  proof cases
    case here
    then show ?thesis unfolding e by (auto simp: candidateFor_def)
  next
    case later
    with Cons.IH show ?thesis by auto
  qed
qed

lemma nearOrPerfectMatches_source:
  assumes "m \<in> set (nearOrPerfectMatches cfg parseDate orders cache)"
  shows "orderIndex m < length orders \<and> (\<exists>t. (transactionId m, t) \<in> set cache \<and> \<not> memoPresent t)"
proof -
  from assms obtain i ord where io: "(i, ord) \<in> set (enumerate 0 orders)"
    and m: "m \<in> set (scanTransactions cfg parseDate i ord cache)"
    unfolding nearOrPerfectMatches_def by auto
  from io have "i < length orders" by (simp add: in_set_enumerate_eq)
  with scanTransactions_source [OF m] show ?thesis by simp
qed

lemma acceptedMatches_source:
  assumes "m \<in> set (acceptedMatches cfg parseDate orders s)"
  shows "orderIndex m < length orders
         \<and> (\<exists>t. (transactionId m, t) \<in> set (transactions s) \<and> \<not> memoPresent t)"
proof -
  from assms have "m \<in> set (sortBy compareMatches
      (nearOrPerfectMatches cfg parseDate orders (transactions s)))"
    unfolding acceptedMatches_def by (rule subsetD [OF acceptMatches_subset])
  then have "m \<in> set (nearOrPerfectMatches cfg parseDate orders (transactions s))"
    by (simp only: set_sortBy)
  then show ?thesis by (rule nearOrPerfectMatches_source)
qed

text \<open>
  C5. Every match that \<open>matchTransactions\<close> returns names a cached transaction whose
  memo is empty: annotated transactions are passed over when candidates are generated.
\<close>

theorem matchTransactions_unannotated:
  assumes "distinct (map fst (transactions s))"
    and "fm \<in> set (fst (matchTransactions cfg parseDate orders s))"
  shows "\<exists>t. map_of (transactions s) (fm_transactionId fm) = Some t \<and> \<not> memoPresent t"
proof -
  from assms(2) obtain m where m: "m \<in> set (acceptedMatches cfg parseDate orders s)"
    and fm: "fm = finalMatch orders m"
    unfolding matchTransactions_eq by auto
  from acceptedMatches_source [OF m] obtain t
    where "(transactionId m, t) \<in> set (transactions s)" and "\<not> memoPresent t" by blast
  with assms(1) fm show ?thesis by (auto simp: finalMatch_def)
qed

theorem matchTransactions_unannotated_witness:
  "distinct (map fst (transactions sampleYNAB))
   \<and> \<lparr>fm_transactionId = ''tx-a'', order = Some (sampleOrders ! 0)\<rparr>
       \<in> set (fst (matchTransactions defaultConfig sampleParseDate sampleOrders sampleYNAB))
   \<and> (\<exists>t. map_of (transactions sampleYNAB) ''tx-a'' = Some t \<and> \<not> memoPresent t)"
proof (intro conjI)
  show d: "distinct (map fst (transactions sampleYNAB))"
    by code_simp
  show m: "\<lparr>fm_transactionId = ''tx-a'', order = Some (sampleOrders ! 0)\<rparr>
       \<in> set (fst (matchTransactions defaultConfig sampleParseDate sampleOrders sampleYNAB))"
    by code_simp
  show "\<exists>t. map_of (transactions sampleYNAB) ''tx-a'' = Some t \<and> \<not> memoPresent t"
    using matchTransactions_unannotated [OF d m] by simp
qed

section \<open>A perfect match ends the scan of its order only\<close>

lemma filter_orderIndex_scan:
  "filter (\<lambda>m. orderIndex m = i) (scanTransactions cfg parseDate j ord cache) =
     (if i = j then scanTransactions cfg parseDate j ord cache else [])"
proof (cases "i = j")
  case True
  then show ?thesis using scanTransactions_source [of _ cfg parseDate j ord cache]
    by (simp add: filter_id_conv)
next
  case False
  then show ?thesis using scanTransactions_source [of _ cfg parseDate j ord cache]
    by (auto simp: filter_empty_conv)
qed

lemma filter_orderIndex_enumerate:
  "filter (\<lambda>m. orderIndex m = i)
     (concat (map (\<lambda>(j, ord). scanTransactions cfg parseDate j ord cache) (enumerate n orders))) =
   (if n \<le> i \<and> i < n + length orders
    then scanTransactions cfg parseDate i (orders ! (i - n)) cache else [])"
proof (induction orders arbitrary: n)
  case Nil
  show ?case by auto
next
  case (Cons ord orders)
  have later: "filter (\<lambda>m. orderIndex m = i)
      (concat (map (\<lambda>(j, ord). scanTransactions cfg parseDate j ord cache)
         (enumerate (Suc n) orders))) =
    (if Suc n \<le> i \<and> i < Suc n + length orders
     then scanTransactions cfg parseDate i (orders ! (i - Suc n)) cache else [])"
    by (rule Cons.IH)
  have nth: "Suc n \<le> i \<Longrightarrow> (ord # orders) ! (i - n) = orders ! (i - Suc n)"
    by (simp add: Suc_diff_le)
  have split: "filter (\<lambda>m. orderIndex m = i)
      (concat (map (\<lambda>(j, ord). scanTransactions cfg parseDate j ord cache)
         (enumerate n (ord # orders)))) =
    filter (\<lambda>m. orderIndex m = i) (scanTransactions cfg parseDate n ord cache)
    @ filter (\<lambda>m. orderIndex m = i)
      (concat (map (\<lambda>(j, ord). scanTransactions cfg parseDate j ord cache)
         (enumerate (Suc n) orders)))"
    by simp
  show ?case unfolding split later filter_orderIndex_scan using nth by auto
qed

lemma scanTransactions_stops:
  assumes "\<not> memoPresent t" and "perfectMatch parseDate ord t"
  shows "scanTransactions cfg parseDate i ord (pre @ (tid, t) # post) =
         scanTransactions cfg parseDate i ord (pre @ [(tid, t)])"
proof (induction pre)
  case Nil
  from assms show ?case by (simp only: append_Nil scanTransactions_Cons if_False if_True)
next
  case (Cons e pre)
  obtain k u where e: "e = (k, u)" by (cases e)
  show ?case unfolding e append_Cons scanTransactions_Cons Cons.IH ..
qed

lemma scanTransactions_reaches:
  assumes "\<forall>e\<in>set pre. memoPresent (snd e) \<or> \<not> perfectMatch parseDate ord (snd e)"
    and "\<not> memoPresent t" and "withinTolerance cfg parseDate ord t"
  shows "candidateFor parseDate j ord tid t
           \<in> set (scanTransactions cfg parseDate j ord (pre @ (tid, t) # post))"
  using assms(1)
proof (induction pre)
  case Nil
  from assms(2,3) show ?case by (simp add: scanTransactions_Cons)
next
  case (Cons e pre)
  obtain k u where e: "e = (k, u)" by (cases e)
  from Cons.prems have here: "memoPresent u \<or> \<not> perfectMatch parseDate ord u"
    and rest: "\<forall>e\<in>set pre. memoPresent (snd e) \<or> \<not> perfectMatch parseDate ord (snd e)"
    unfolding e by simp_all
  from Cons.IH [OF rest] here show ?case
    unfolding e append_Cons scanTransactions_Cons by auto
qed

lemma scanTransactions_in_candidates:
  assumes "j < length orders"
    and "m \<in> set (scanTransactions cfg parseDate j (orders ! j) cache)"
  shows "m \<in> set (nearOrPerfectMatches cfg parseDate orders cache)"
proof -
  from assms(1) have "(j, orders ! j) \<in> set (enumerate 0 orders)"
    by (simp add: in_set_enumerate_eq)
  with assms(2) show ?thesis
    unfolding nearOrPerfectMatches_def by (auto intro!: bexI [of _ "(j, orders ! j)"])
qed

text \<open>
  C6. When order \<open>i\<close> and an unannotated transaction match perfectly, the candidates of
  order \<open>i\<close> are those found up to and including that transaction: nothing after it is
  scanned for \<open>i\<close>. The transaction is still a candidate of every other order \<open>j\<close>
  that is within tolerance of it and whose own scan reaches it; the two candidates then
  stand side by side in the list, and only the greedy loop chooses between them.
\<close>

theorem perfect_match_ends_scan:
  assumes "\<not> memoPresent t" and "i < length orders"
    and "perfectMatch parseDate (orders ! i) t"
  shows "filter (\<lambda>m. orderIndex m = i)
           (nearOrPerfectMatches cfg parseDate orders (pre @ (tid, t) # post)) =
         scanTransactions cfg parseDate i (orders ! i) (pre @ [(tid, t)])
       \<and> (\<forall>j. j < length orders \<and> j \<noteq> i \<and> withinTolerance cfg parseDate (orders ! j) t
              \<and> (\<forall>e\<in>set pre. memoPresent (snd e) \<or> \<not> perfectMatch parseDate (orders ! j) (snd e))
            \<longrightarrow> candidateFor parseDate j (orders ! j) tid t
                  \<in> set (nearOrPerfectMatches cfg parseDate orders (pre @ (tid, t) # post)))"
proof (intro conjI allI impI)
  have "filter (\<lambda>m. orderIndex m = i)
           (nearOrPerfectMatches cfg parseDate orders (pre @ (tid, t) # post)) =
        scanTransactions cfg parseDate i (orders ! i) (pre @ (tid, t) # post)"
    unfolding nearOrPerfectMatches_def filter_orderIndex_enumerate using assms(2) by simp
  also have "\<dots> = scanTransactions cfg parseDate i (orders ! i) (pre @ [(tid, t)])"
    using assms(1,3) by (rule scanTransactions_stops)
  finally show "filter (\<lambda>m. orderIndex m = i)
           (nearOrPerfectMatches cfg parseDate orders (pre @ (tid, t) # post)) =
         scanTransactions cfg parseDate i (orders ! i) (pre @ [(tid, t)])" .
next
  fix j
  assume j: "j < length orders \<and> j \<noteq> i \<and> withinTolerance cfg parseDate (orders ! j) t
              \<and> (\<forall>e\<in>set pre. memoPresent (snd e) \<or> \<not> perfectMatch parseDate (orders ! j) (snd e))"
  then have "candidateFor parseDate j (orders ! j) tid t
           \<in> set (scanTransactions cfg parseDate j (orders ! j) (pre @ (tid, t) # post))"
    using assms(1) by (intro scanTransactions_reaches) simp_all
  with j show "candidateFor parseDate j (orders ! j) tid t
                  \<in> set (nearOrPerfectMatches cfg parseDate orders (pre @ (tid, t) # post))"
    by (intro scanTransactions_in_candidates) simp_all
qed

theorem perfect_match_ends_scan_witness:
  "\<not> memoPresent (sampleTransaction ''tx-a'' ''2024-01-15'' None False)
   \<and> perfectMatch sampleParseDate (sampleOrders ! 0) (sampleTransaction ''tx-a'' ''2024-01-15'' None False)
   \<and> withinTolerance defaultConfig sampleParseDate (sampleOrders ! 0)
        (sampleTransaction ''tx-b'' ''2024-01-16'' (Some []) False)
   \<and> filter (\<lambda>m. orderIndex m = 0)
        (nearOrPerfectMatches defaultConfig sampleParseDate sampleOrders (transactions sampleYNAB)) =
      [candidateFor sampleParseDate 0 (sampleOrders ! 0) ''tx-a''
         (sampleTransaction ''tx-a'' ''2024-01-15'' None False)]
   \<and> candidateFor sampleParseDate 1 (sampleOrders ! 1) ''tx-a''
        (sampleTransaction ''tx-a'' ''2024-01-15'' None False)
       \<in> set (nearOrPerfectMatches defaultConfig sampleParseDate sampleOrders (transactions sampleYNAB))"
proof -
  let ?a = "sampleTransaction ''tx-a'' ''2024-01-15'' None False"
  let ?pre = "[(''tx-m'', sampleTransaction ''tx-m'' ''2024-01-15'' (Some ''Books'') False)]"
  let ?post = "[(''tx-b'', sampleTransaction ''tx-b'' ''2024-01-16'' (Some []) False)]"
  have cache: "transactions sampleYNAB = ?pre @ (''tx-a'', ?a) # ?post"
    by (simp add: sampleYNAB_def)
  have h1: "\<not> memoPresent ?a" by code_simp
  have h2: "0 < length sampleOrders" by code_simp
  have h3: "perfectMatch sampleParseDate (sampleOrders ! 0) ?a" by code_simp
  have h4: "withinTolerance defaultConfig sampleParseDate (sampleOrders ! 0)
        (sampleTransaction ''tx-b'' ''2024-01-16'' (Some []) False)" by code_simp
  note T = perfect_match_ends_scan [OF h1 h2 h3, of defaultConfig ?pre "''tx-a''" ?post, folded cache]
  have s0: "scanTransactions defaultConfig sampleParseDate 0 (sampleOrders ! 0) (?pre @ [(''tx-a'', ?a)])
      = [candidateFor sampleParseDate 0 (sampleOrders ! 0) ''tx-a'' ?a]"
    by code_simp
  have c1: "filter (\<lambda>m. orderIndex m = 0)
        (nearOrPerfectMatches defaultConfig sampleParseDate sampleOrders (transactions sampleYNAB)) =
      [candidateFor sampleParseDate 0 (sampleOrders ! 0) ''tx-a'' ?a]"
    using T s0 by simp
  have j: "1 < length sampleOrders \<and> (1::nat) \<noteq> 0
      \<and> withinTolerance defaultConfig sampleParseDate (sampleOrders ! 1) ?a
      \<and> (\<forall>e\<in>set ?pre. memoPresent (snd e) \<or> \<not> perfectMatch sampleParseDate (sampleOrders ! 1) (snd e))"
    by code_simp
  from T have "\<forall>j. j < length sampleOrders \<and> j \<noteq> 0
      \<and> withinTolerance defaultConfig sampleParseDate (sampleOrders ! j) ?a
      \<and> (\<forall>e\<in>set ?pre. memoPresent (snd e) \<or> \<not> perfectMatch sampleParseDate (sampleOrders ! j) (snd e))
      \<longrightarrow> candidateFor sampleParseDate j (sampleOrders ! j) ''tx-a'' ?a
          \<in> set (nearOrPerfectMatches defaultConfig sampleParseDate sampleOrders (transactions sampleYNAB))"
    by (rule conjunct2)
  with j have c2: "candidateFor sampleParseDate 1 (sampleOrders ! 1) ''tx-a'' ?a
          \<in> set (nearOrPerfectMatches defaultConfig sampleParseDate sampleOrders (transactions sampleYNAB))"
    by blast
  from h1 h3 h4 c1 c2 show ?thesis by (intro conjI)
qed

section \<open>What the cache holds\<close>

lemma set_setEntry: "set (setEntry k v c) \<subseteq> insert (k, v) (set c)"
  by (induction c) (auto split: if_splits)

lemma set_deleteEntry: "set (deleteEntry k c) \<subseteq> set c"
  by (auto simp: deleteEntry_def)

lemma set_cacheEach:
  "e \<in> set (cacheEach ts c) \<Longrightarrow> e \<in> set c \<or> (snd e \<in> set ts \<and> fst e = td_id (snd e))"
proof (induction ts arbitrary: c)
  case Nil
  then show ?case by simp
next
  case (Cons t ts)
  let ?c = "if deleted t \<and> hasKey (td_id t) c then deleteEntry (td_id t) c
            else setEntry (td_id t) t c"
  from Cons.prems have "e \<in> set (cacheEach ts ?c)" by simp
  then have "e \<in> set ?c \<or> (snd e \<in> set ts \<and> fst e = td_id (snd e))"
    by (rule Cons.IH)
  moreover have "set ?c \<subseteq> insert (td_id t, t) (set c)"
    using set_setEntry [of "td_id t" t c] set_deleteEntry [of "td_id t" c] by auto
  ultimately show ?case by auto
qed

lemma set_fetchTransactions:
  assumes "e \<in> set (transactions (fetchTransactions resp s))"
  shows "e \<in> set (transactions s)
         \<or> (snd e \<in> set (r_transactions resp) \<and> fst e = td_id (snd e)
            \<and> payeeIsAmazon (snd e) \<and> memoEmpty (snd e))"
  using set_cacheEach [of e "filter (\<lambda>t. payeeIsAmazon t \<and> memoEmpty t) (r_transactions resp)"
      "transactions s"] assms
  by (auto simp: fetchTransactions_def)

lemma cacheAmazon_fetchTransactions:
  "cacheAmazon (transactions s) \<Longrightarrow> cacheAmazon (transactions (fetchTransactions resp s))"
  unfolding cacheAmazon_def list_all_iff using set_fetchTransactions by blast

lemma cacheAmazon_setMemo: "cacheAmazon c \<Longrightarrow> cacheAmazon (setMemo k m c)"
  by (induction c) (auto simp: cacheAmazon_def setMemo_def payeeIsAmazon_def)

lemma cacheAmazon_updateEach: "cacheAmazon c \<Longrightarrow> cacheAmazon (snd (updateEach ms c))"
proof (induction ms arbitrary: c)
  case Nil
  then show ?case by simp
next
  case (Cons m ms)
  show ?case
  proof (cases "order m")
    case None
    with Cons.prems show ?thesis by simp
  next
    case (Some ord)
    let ?c = "setMemo (fm_transactionId m) (join '', '' (items ord)) c"
    have "cacheAmazon (snd (updateEach ms ?c))"
      by (rule Cons.IH) (rule cacheAmazon_setMemo [OF Cons.prems])
    with Some Cons.prems show ?thesis
      by (auto split: prod.splits sum.splits)
  qed
qed

lemma transactions_updateTransactions:
  "transactions (snd (updateTransactions ms s)) =
     (if length ms = 0 then transactions s else snd (updateEach ms (transactions s)))"
  by (simp add: updateTransactions_def split: prod.splits sum.splits)

lemma cacheAmazon_matchAndUpdate:
  assumes "cacheAmazon (transactions s)"
  shows "cacheAmazon (transactions (snd (matchAndUpdate cfg parseDate orders s)))"
proof -
  have "snd (matchTransactions cfg parseDate orders s) = s"
    by (simp add: matchTransactions_def)
  with assms show ?thesis
    by (simp add: matchAndUpdate_def Let_def transactions_updateTransactions cacheAmazon_updateEach)
qed

lemma cacheAmazon_run:
  "cacheAmazon (transactions s) \<Longrightarrow> cacheAmazon (transactions (run cfg parseDate evs s))"
proof (induction evs arbitrary: s)
  case Nil
  then show ?case by simp
next
  case (Cons ev evs)
  then show ?case
    by (cases ev) (simp_all add: cacheAmazon_fetchTransactions cacheAmazon_matchAndUpdate)
qed

text \<open>
  C10. Whatever \<open>fetchTransactions\<close> adds to the cache comes from the ledger's answer,
  has a payee containing "amazon" in lower case and an empty or absent memo. So in every
  run from the empty cache each cached transaction is filed under its id and has such a
  payee, and every match names one of them: a transaction the filter rejects is never
  cached and never matched.
\<close>

theorem cached_transactions_are_amazon:
  "((k, t) \<in> set (transactions (fetchTransactions resp s)) \<longrightarrow>
      (k, t) \<in> set (transactions s)
      \<or> (t \<in> set (r_transactions resp) \<and> k = td_id t \<and> payeeIsAmazon t \<and> memoEmpty t))
   \<and> ((k, t) \<in> set (transactions (run cfg parseDate evs initialYNAB)) \<longrightarrow>
        k = td_id t \<and> payeeIsAmazon t)
   \<and> (fm \<in> set (fst (matchTransactions cfg parseDate orders (run cfg parseDate evs initialYNAB))) \<longrightarrow>
        (\<exists>u. (fm_transactionId fm, u) \<in> set (transactions (run cfg parseDate evs initialYNAB))
             \<and> payeeIsAmazon u))"
proof -
  have fetched: "(k, t) \<in> set (transactions (fetchTransactions resp s)) \<longrightarrow>
      (k, t) \<in> set (transactions s)
      \<or> (t \<in> set (r_transactions resp) \<and> k = td_id t \<and> payeeIsAmazon t \<and> memoEmpty t)"
    using set_fetchTransactions [of "(k, t)" resp s] by simp
  have inv: "cacheAmazon (transactions (run cfg parseDate evs initialYNAB))"
    by (rule cacheAmazon_run) (simp add: initialYNAB_def cacheAmazon_def)
  have cached: "(k, t) \<in> set (transactions (run cfg parseDate evs initialYNAB)) \<longrightarrow>
        k = td_id t \<and> payeeIsAmazon t"
    using inv unfolding cacheAmazon_def list_all_iff by auto
  have matched: "fm \<in> set (fst (matchTransactions cfg parseDate orders (run cfg parseDate evs initialYNAB))) \<longrightarrow>
        (\<exists>u. (fm_transactionId fm, u) \<in> set (transactions (run cfg parseDate evs initialYNAB))
             \<and> payeeIsAmazon u)"
  proof
    assume "fm \<in> set (fst (matchTransactions cfg parseDate orders (run cfg parseDate evs initialYNAB)))"
    then obtain m where m: "m \<in> set (acceptedMatches cfg parseDate orders (run cfg parseDate evs initialYNAB))"
      and fm: "fm = finalMatch orders m"
      unfolding matchTransactions_eq by auto
    from acceptedMatches_source [OF m] obtain u
      where u: "(transactionId m, u) \<in> set (transactions (run cfg parseDate evs initialYNAB))" by blast
    with inv have "payeeIsAmazon u"
      unfolding cacheAmazon_def list_all_iff by force
    with u fm show "\<exists>u. (fm_transactionId fm, u) \<in> set (transactions (run cfg parseDate evs initialYNAB))
             \<and> payeeIsAmazon u"
      by (auto simp: finalMatch_def)
  qed
  from fetched cached matched show ?thesis by (intro conjI)
qed

theorem cached_transactions_are_amazon_witness:
  "(''tx-a'', sampleTransaction ''tx-a'' ''2024-01-15'' None False)
      \<in> set (transactions (fetchTransactions sampleResponse initialYNAB))
   \<and> (''tx-a'', sampleTransaction ''tx-a'' ''2024-01-15'' None False) \<notin> set (transactions initialYNAB)
   \<and> sampleTransaction ''tx-a'' ''2024-01-15'' None False \<in> set (r_transactions sampleResponse)
   \<and> payeeIsAmazon (sampleTransaction ''tx-a'' ''2024-01-15'' None False)
   \<and> memoEmpty (sampleTransaction ''tx-a'' ''2024-01-15'' None False)
   \<and> map fst (transactions (fetchTransactions sampleResponse initialYNAB)) = [''tx-a'']
   \<and> (''tx-a'', sampleTransaction ''tx-a'' ''2024-01-15'' (Some ''Widget A, Widget B'') False)
       \<in> set (transactions (run defaultConfig sampleParseDate
                 [Fetch sampleResponse, MatchAndUpdate sampleOrders] initialYNAB))
   \<and> payeeIsAmazon (sampleTransaction ''tx-a'' ''2024-01-15'' (Some ''Widget A, Widget B'') False)
   \<and> \<lparr>fm_transactionId = ''tx-a'', order = Some (sampleOrders ! 0)\<rparr>
       \<in> set (fst (matchTransactions defaultConfig sampleParseDate sampleOrders
                 (run defaultConfig sampleParseDate [Fetch sampleResponse] initialYNAB)))
   \<and> (\<exists>u. (''tx-a'', u) \<in> set (transactions
                 (run defaultConfig sampleParseDate [Fetch sampleResponse] initialYNAB))
          \<and> payeeIsAmazon u)"
proof -
  let ?a = "sampleTransaction ''tx-a'' ''2024-01-15'' None False"
  let ?a' = "sampleTransaction ''tx-a'' ''2024-01-15'' (Some ''Widget A, Widget B'') False"
  let ?fm = "\<lparr>fm_transactionId = ''tx-a'', order = Some (sampleOrders ! 0)\<rparr>"
  have h1: "(''tx-a'', ?a) \<in> set (transactions (fetchTransactions sampleResponse initialYNAB))"
    by code_simp
  have n1: "(''tx-a'', ?a) \<notin> set (transactions initialYNAB)"
    by (simp add: initialYNAB_def)
  from cached_transactions_are_amazon
         [of "''tx-a''" ?a sampleResponse initialYNAB defaultConfig sampleParseDate "[]" ?fm "[]"] h1 n1
  have c1: "?a \<in> set (r_transactions sampleResponse) \<and> payeeIsAmazon ?a \<and> memoEmpty ?a"
    by blast
  have k1: "map fst (transactions (fetchTransactions sampleResponse initialYNAB)) = [''tx-a'']"
    by code_simp
  have h2: "(''tx-a'', ?a') \<in> set (transactions (run defaultConfig sampleParseDate
                 [Fetch sampleResponse, MatchAndUpdate sampleOrders] initialYNAB))"
    by code_simp
  from cached_transactions_are_amazon
         [of "''tx-a''" ?a' sampleResponse initialYNAB defaultConfig sampleParseDate
            "[Fetch sampleResponse, MatchAndUpdate sampleOrders]" ?fm "[]"] h2
  have c2: "payeeIsAmazon ?a'"
    by blast
  have h3: "?fm \<in> set (fst (matchTransactions defaultConfig sampleParseDate sampleOrders
                 (run defaultConfig sampleParseDate [Fetch sampleResponse] initialYNAB)))"
    by code_simp
  from cached_transactions_are_amazon
         [of "''tx-a''" ?a sampleResponse initialYNAB defaultConfig sampleParseDate
            "[Fetch sampleResponse]" ?fm sampleOrders] h3
  have c3: "\<exists>u. (''tx-a'', u) \<in> set (transactions
                 (run defaultConfig sampleParseDate [Fetch sampleResponse] initialYNAB))
          \<and> payeeIsAmazon u"
    by simp
  from h1 n1 c1 k1 h2 c2 h3 c3 show ?thesis by (intro conjI) simp_all
qed

section \<open>What the two methods write\<close>

lemma eraseMemo_setMemo: "eraseMemo (setMemo k m c) = eraseMemo c"
  by (induction c) (auto simp: eraseMemo_def setMemo_def)

lemma eraseMemo_updateEach: "eraseMemo (snd (updateEach ms c)) = eraseMemo c"
proof (induction ms arbitrary: c)
  case Nil
  show ?case by simp
next
  case (Cons m ms)
  show ?case
  proof (cases "order m")
    case None
    then show ?thesis by simp
  next
    case (Some ord)
    have "eraseMemo (snd (updateEach ms (setMemo (fm_transactionId m) (join '', '' (items ord)) c)))
          = eraseMemo c"
      by (simp only: Cons.IH eraseMemo_setMemo)
    with Some show ?thesis by (auto split: prod.splits sum.splits)
  qed
qed

lemma filter_setMemo:
  "k \<in> K \<Longrightarrow> filter (\<lambda>e. fst e \<notin> K) (setMemo k m c) = filter (\<lambda>e. fst e \<notin> K) c"
  by (induction c) (auto simp: setMemo_def)

lemma filter_updateEach:
  "fm_transactionId ` set ms \<subseteq> K \<Longrightarrow>
     filter (\<lambda>e. fst e \<notin> K) (snd (updateEach ms c)) = filter (\<lambda>e. fst e \<notin> K) c"
proof (induction ms arbitrary: c)
  case Nil
  show ?case by simp
next
  case (Cons m ms)
  from Cons.prems have k: "fm_transactionId m \<in> K" and rest: "fm_transactionId ` set ms \<subseteq> K"
    by auto
  show ?case
  proof (cases "order m")
    case None
    then show ?thesis by simp
  next
    case (Some ord)
    have "filter (\<lambda>e. fst e \<notin> K)
            (snd (updateEach ms (setMemo (fm_transactionId m) (join '', '' (items ord)) c)))
          = filter (\<lambda>e. fst e \<notin> K) c"
      by (simp only: Cons.IH [OF rest] filter_setMemo [OF k])
    with Some show ?thesis by (auto split: prod.splits sum.splits)
  qed
qed

lemma map_of_setMemo:
  "map_of (setMemo k m c) k' =
     (if k' = k then map_option (\<lambda>t. t\<lparr>memo := Some m\<rparr>) (map_of c k') else map_of c k')"
  by (induction c) (auto simp: setMemo_def)

lemma map_of_updateEach_other:
  "k \<notin> fm_transactionId ` set ms \<Longrightarrow> map_of (snd (updateEach ms c)) k = map_of c k"
proof (induction ms arbitrary: c)
  case Nil
  show ?case by simp
next
  case (Cons m ms)
  from Cons.prems have k: "k \<noteq> fm_transactionId m" and rest: "k \<notin> fm_transactionId ` set ms"
    by auto
  show ?case
  proof (cases "order m")
    case None
    then show ?thesis by simp
  next
    case (Some ord)
    have "map_of (snd (updateEach ms (setMemo (fm_transactionId m) (join '', '' (items ord)) c))) k
          = map_of c k"
      using k by (simp add: Cons.IH [OF rest] map_of_setMemo)
    with Some show ?thesis by (auto split: prod.splits sum.splits)
  qed
qed

lemma map_of_updateEach_matched:
  assumes "fst (updateEach ms c) = Inr us" and "distinct (map fm_transactionId ms)"
    and "fm \<in> set ms" and "order fm = Some ord" and "map_of c (fm_transactionId fm) = Some t"
  shows "map_of (snd (updateEach ms c)) (fm_transactionId fm)
         = Some (t\<lparr>memo := Some (join '', '' (items ord))\<rparr>)"
  using assms
proof (induction ms arbitrary: c us)
  case Nil
  then show ?case by simp
next
  case (Cons m ms)
  from Cons.prems(1) obtain o' where o': "order m = Some o'"
    by (cases "order m") auto
  let ?c = "setMemo (fm_transactionId m) (join '', '' (items o')) c"
  from Cons.prems(1) o' have key: "hasKey (fm_transactionId m) c"
    by (auto split: if_splits)
  from Cons.prems(1) o' key obtain us' where us': "fst (updateEach ms ?c) = Inr us'"
    by (auto split: prod.splits sum.splits)
  from o' key have snd_eq: "snd (updateEach (m # ms) c) = snd (updateEach ms ?c)"
    by (auto split: prod.splits sum.splits)
  from Cons.prems(2) have notin: "fm_transactionId m \<notin> fm_transactionId ` set ms"
    and dist: "distinct (map fm_transactionId ms)" by auto
  show ?case
  proof (cases "fm = m")
    case True
    with Cons.prems(4) o' have "o' = ord" by simp
    with Cons.prems(5) True have "map_of ?c (fm_transactionId m)
        = Some (t\<lparr>memo := Some (join '', '' (items ord))\<rparr>)"
      by (simp add: map_of_setMemo)
    with True show ?thesis
      unfolding snd_eq by (simp add: map_of_updateEach_other [OF notin])
  next
    case False
    with Cons.prems(3) have mem: "fm \<in> set ms" by simp
    with notin have "fm_transactionId fm \<noteq> fm_transactionId m"
      by (metis imageI)
    with Cons.prems(5) have "map_of ?c (fm_transactionId fm) = Some t"
      by (simp add: map_of_setMemo)
    from Cons.IH [OF us' dist mem Cons.prems(4) this] show ?thesis
      unfolding snd_eq .
  qed
qed

lemma snd_matchTransactions: "snd (matchTransactions cfg parseDate orders s) = s"
  by (simp add: matchTransactions_def)

lemma knowledge_updateTransactions:
  "transactionsServerKnowledge (snd (updateTransactions ms s)) = transactionsServerKnowledge s"
  by (simp add: updateTransactions_def split: prod.splits sum.splits)

lemma fst_updateTransactions_Inr:
  "fst (updateTransactions ms s) = Inr (Some us) \<Longrightarrow> fst (updateEach ms (transactions s)) = Inr us"
  by (auto simp: updateTransactions_def split: prod.splits sum.splits if_splits)

text \<open>
  C9, as the code has it. \<open>matchTransactions\<close> leaves the object as it found it.
  \<open>updateTransactions\<close> does write the cache: it keeps the sync cursor, every key, the
  order of the entries and every field but \<open>memo\<close>, and every entry that no match
  names; and when it succeeds on matches with distinct ids, the cached transaction of
  each match carries the joined items of its order as its memo.
\<close>

theorem updateTransactions_writes_memo_only:
  "snd (matchTransactions cfg parseDate orders s) = s
   \<and> transactionsServerKnowledge (snd (updateTransactions ms s)) = transactionsServerKnowledge s
   \<and> eraseMemo (transactions (snd (updateTransactions ms s))) = eraseMemo (transactions s)
   \<and> filter (\<lambda>e. fst e \<notin> fm_transactionId ` set ms) (transactions (snd (updateTransactions ms s)))
       = filter (\<lambda>e. fst e \<notin> fm_transactionId ` set ms) (transactions s)
   \<and> (fst (updateTransactions ms s) = Inr (Some us) \<and> distinct (map fm_transactionId ms)
        \<and> fm \<in> set ms \<and> order fm = Some ord
        \<and> map_of (transactions s) (fm_transactionId fm) = Some t
      \<longrightarrow> map_of (transactions (snd (updateTransactions ms s))) (fm_transactionId fm)
            = Some (t\<lparr>memo := Some (join '', '' (items ord))\<rparr>))"
proof -
  have written: "fst (updateTransactions ms s) = Inr (Some us) \<and> distinct (map fm_transactionId ms)
        \<and> fm \<in> set ms \<and> order fm = Some ord
        \<and> map_of (transactions s) (fm_transactionId fm) = Some t
      \<longrightarrow> map_of (transactions (snd (updateTransactions ms s))) (fm_transactionId fm)
            = Some (t\<lparr>memo := Some (join '', '' (items ord))\<rparr>)"
  proof
    assume h: "fst (updateTransactions ms s) = Inr (Some us) \<and> distinct (map fm_transactionId ms)
        \<and> fm \<in> set ms \<and> order fm = Some ord
        \<and> map_of (transactions s) (fm_transactionId fm) = Some t"
    then have ne: "length ms \<noteq> 0" by auto
    from h have "fst (updateEach ms (transactions s)) = Inr us"
      by (intro fst_updateTransactions_Inr) simp
    from map_of_updateEach_matched [OF this] h ne
    show "map_of (transactions (snd (updateTransactions ms s))) (fm_transactionId fm)
            = Some (t\<lparr>memo := Some (join '', '' (items ord))\<rparr>)"
      by (simp add: transactions_updateTransactions)
  qed
  have erased: "eraseMemo (transactions (snd (updateTransactions ms s))) = eraseMemo (transactions s)"
    by (simp add: transactions_updateTransactions eraseMemo_updateEach)
  have others: "filter (\<lambda>e. fst e \<notin> fm_transactionId ` set ms) (transactions (snd (updateTransactions ms s)))
       = filter (\<lambda>e. fst e \<notin> fm_transactionId ` set ms) (transactions s)"
    by (simp add: transactions_updateTransactions filter_updateEach)
  from snd_matchTransactions knowledge_updateTransactions erased others written
  show ?thesis by (intro conjI)
qed

theorem updateTransactions_writes_memo_only_witness:
  "fst (updateTransactions (fst (matchTransactions defaultConfig sampleParseDate sampleOrders sampleYNAB))
          sampleYNAB)
     = Inr (Some [\<lparr>u_id = ''tx-a'', u_memo = ''Widget A, Widget B'', approved = False\<rparr>,
                  \<lparr>u_id = ''tx-b'', u_memo = ''Widget C'', approved = False\<rparr>])
   \<and> distinct (map fm_transactionId
        (fst (matchTransactions defaultConfig sampleParseDate sampleOrders sampleYNAB)))
   \<and> \<lparr>fm_transactionId = ''tx-a'', order = Some (sampleOrders ! 0)\<rparr>
       \<in> set (fst (matchTransactions defaultConfig sampleParseDate sampleOrders sampleYNAB))
   \<and> map_of (transactions sampleYNAB) ''tx-a'' = Some (sampleTransaction ''tx-a'' ''2024-01-15'' None False)
   \<and> snd (matchTransactions defaultConfig sampleParseDate sampleOrders sampleYNAB) = sampleYNAB
   \<and> transactionsServerKnowledge (snd (updateTransactions
        (fst (matchTransactions defaultConfig sampleParseDate sampleOrders sampleYNAB)) sampleYNAB)) = Some 7
   \<and> eraseMemo (transactions (snd (updateTransactions
        (fst (matchTransactions defaultConfig sampleParseDate sampleOrders sampleYNAB)) sampleYNAB)))
       = eraseMemo (transactions sampleYNAB)
   \<and> filter (\<lambda>e. fst e \<notin> {''tx-a'', ''tx-b''}) (transactions (snd (updateTransactions
        (fst (matchTransactions defaultConfig sampleParseDate sampleOrders sampleYNAB)) sampleYNAB)))
       = [(''tx-m'', sampleTransaction ''tx-m'' ''2024-01-15'' (Some ''Books'') False)]
   \<and> map_of (transactions (snd (updateTransactions
        (fst (matchTransactions defaultConfig sampleParseDate sampleOrders sampleYNAB)) sampleYNAB))) ''tx-a''
       = Some ((sampleTransaction ''tx-a'' ''2024-01-15'' None False)
                 \<lparr>memo := Some (join '', '' (items (sampleOrders ! 0)))\<rparr>)"
proof -
  let ?ms = "fst (matchTransactions defaultConfig sampleParseDate sampleOrders sampleYNAB)"
  let ?fm = "\<lparr>fm_transactionId = ''tx-a'', order = Some (sampleOrders ! 0)\<rparr>"
  let ?us = "[\<lparr>u_id = ''tx-a'', u_memo = ''Widget A, Widget B'', approved = False\<rparr>,
              \<lparr>u_id = ''tx-b'', u_memo = ''Widget C'', approved = False\<rparr>]"
  let ?a = "sampleTransaction ''tx-a'' ''2024-01-15'' None False"
  have h1: "fst (updateTransactions ?ms sampleYNAB) = Inr (Some ?us)" by code_simp
  have h2: "distinct (map fm_transactionId ?ms)" by code_simp
  have h3: "?fm \<in> set ?ms" by code_simp
  have h4: "order ?fm = Some (sampleOrders ! 0)" by simp
  have h5: "map_of (transactions sampleYNAB) (fm_transactionId ?fm) = Some ?a" by code_simp
  have ids: "fm_transactionId ` set ?ms = {''tx-a'', ''tx-b''}" by code_simp
  have k: "transactionsServerKnowledge sampleYNAB = Some 7" by (simp add: sampleYNAB_def)
  have rest: "filter (\<lambda>e. fst e \<notin> {''tx-a'', ''tx-b''}) (transactions sampleYNAB)
       = [(''tx-m'', sampleTransaction ''tx-m'' ''2024-01-15'' (Some ''Books'') False)]"
    by code_simp
  note T = updateTransactions_writes_memo_only
             [of defaultConfig sampleParseDate sampleOrders sampleYNAB ?ms ?us ?fm "sampleOrders ! 0" ?a]
  from T h1 h2 h3 h4 h5 have w: "map_of (transactions (snd (updateTransactions ?ms sampleYNAB))) ''tx-a''
       = Some (?a\<lparr>memo := Some (join '', '' (items (sampleOrders ! 0)))\<rparr>)"
    by simp
  from T have f: "filter (\<lambda>e. fst e \<notin> {''tx-a'', ''tx-b''}) (transactions (snd (updateTransactions ?ms sampleYNAB)))
       = [(''tx-m'', sampleTransaction ''tx-m'' ''2024-01-15'' (Some ''Books'') False)]"
    unfolding ids rest by simp
  from T k have "transactionsServerKnowledge (snd (updateTransactions ?ms sampleYNAB)) = Some 7"
    by simp
  with T h1 h2 h3 h5 w f show ?thesis by (intro conjI) simp_all
qed

text \<open>
  C9 as stated fails: after \<open>updateTransactions\<close> on the sample, the cached transaction
  \<open>tx-a\<close>, whose memo was absent, has the memo \<open>Widget A, Widget B\<close>.
\<close>

theorem updateTransactions_changes_cache:
  "map_of (transactions sampleYNAB) ''tx-a'' = Some (sampleTransaction ''tx-a'' ''2024-01-15'' None False)
   \<and> map_of (transactions (snd (updateTransactions
         (fst (matchTransactions defaultConfig sampleParseDate sampleOrders sampleYNAB)) sampleYNAB))) ''tx-a''
       = Some (sampleTransaction ''tx-a'' ''2024-01-15'' (Some ''Widget A, Widget B'') False)"
  by code_simp

section \<open>Deleted transactions\<close>

text \<open>
  C4 fails on the code. A deleted transaction that is not yet cached takes the
  \<open>else\<close> branch of the \<open>forEach\<close>: from the empty cache, the answer holding one
  deleted Amazon transaction leaves that transaction cached, and the next
  \<open>matchTransactions\<close> matches it.
\<close>

theorem fetchTransactions_caches_deleted:
  "transactions (fetchTransactions deletedResponse initialYNAB)
     = [(''tx-d'', sampleTransaction ''tx-d'' ''2024-01-15'' None True)]
   \<and> map fm_transactionId (fst (matchTransactions defaultConfig sampleParseDate sampleOrders
         (fetchTransactions deletedResponse initialYNAB))) = [''tx-d'']"
  by code_simp

section \<open>The sender test\<close>

lemma startsWith_iff: "startsWith s p \<longleftrightarrow> (\<exists>b. s = p @ b)"
  by (induction s p rule: startsWith.induct) auto

lemma includes_str_iff: "includes_str s p \<longleftrightarrow> (\<exists>a b. s = a @ p @ b)"
proof (induction s)
  case Nil
  show ?case by auto
next
  case (Cons c cs)
  show ?case
  proof
    assume "includes_str (c # cs) p"
    then consider "startsWith (c # cs) p" | "includes_str cs p" by auto
    then show "\<exists>a b. c # cs = a @ p @ b"
    proof cases
      case 1
      then obtain b where "c # cs = p @ b" unfolding startsWith_iff ..
      then have "c # cs = [] @ p @ b" by simp
      then show ?thesis by blast
    next
      case 2
      with Cons.IH obtain a b where "cs = a @ p @ b" by blast
      then have "c # cs = (c # a) @ p @ b" by simp
      then show ?thesis by blast
    qed
  next
    assume "\<exists>a b. c # cs = a @ p @ b"
    then obtain a b where ab: "c # cs = a @ p @ b" by blast
    show "includes_str (c # cs) p"
    proof (cases a)
      case Nil
      with ab have "startsWith (c # cs) p" unfolding startsWith_iff by auto
      then show ?thesis by simp
    next
      case (Cons x a')
      with ab have "cs = a' @ p @ b" by simp
      with Cons.IH have "includes_str cs p" by blast
      then show ?thesis by simp
    qed
  qed
qed

text \<open>
  C3, as the code has it. The test is containment, not equality: a message whose
  \<open>From\<close> header does not contain the order-confirmation address is skipped with the
  one line of log, whatever its body, its date and the HTML library are: nothing of the
  document is looked at.
\<close>

theorem scanEmail_other_sender:
  assumes "\<not> (\<exists>a b. e_from email = a @ orderSender @ b)"
  shows "scanEmail host email =
     (Inr None, [ConsoleLog ''Ignoring... not an Amazon order email (subject or body mismatch)''])"
  using assms by (simp add: scanEmail_def isAmazonEmail_def includes_str_iff)

theorem scanEmail_other_sender_witness:
  "\<not> includes_str ''orders@example.com'' orderSender
   \<and> scanEmail (sampleHost ''$42.10'') (sampleEmail ''orders@example.com'' (Some 1705312800000)) =
     (Inr None, [ConsoleLog ''Ignoring... not an Amazon order email (subject or body mismatch)''])"
proof
  show n: "\<not> includes_str ''orders@example.com'' orderSender"
    by code_simp
  have "\<not> (\<exists>a b. e_from (sampleEmail ''orders@example.com'' (Some 1705312800000))
            = a @ orderSender @ b)"
    using n unfolding includes_str_iff by (simp add: sampleEmail_def)
  then show "scanEmail (sampleHost ''$42.10'') (sampleEmail ''orders@example.com'' (Some 1705312800000)) =
     (Inr None, [ConsoleLog ''Ignoring... not an Amazon order email (subject or body mismatch)''])"
    by (rule scanEmail_other_sender)
qed

text \<open>
  C3 as stated fails: a sender that is not the order-confirmation address but contains
  it passes the test, and the message yields an order.
\<close>

theorem scanEmail_accepts_longer_sender:
  "e_from (sampleEmail ''no-auto-confirm@amazon.com'' (Some 1705312800000)) \<noteq> orderSender
   \<and> fst (scanEmail (sampleHost ''$42.10'')
            (sampleEmail ''no-auto-confirm@amazon.com'' (Some 1705312800000))) =
       Inr (Some \<lparr>date = Some 1705276800000, amount = Fin (- 42100),
                   items = [''Widget A'', ''Widget B'']\<rparr>)"
  by code_simp

section \<open>Exceptions\<close>

text \<open>
  C7. \<open>scanEmail\<close> returns for every host and message, never with an exception: when
  the body of its \<open>try\<close> throws, the exception and a line with the subject are
  logged and the result is that of a skip.
\<close>

theorem scanEmail_never_throws:
  "(\<exists>r out. scanEmail host email = (Inr r, out))
   \<and> (isAmazonEmail email
        \<and> scanDocument host (load host (replaceForwarded (body email))) email = (Inl e, out)
      \<longrightarrow> scanEmail host email =
            (Inr None,
             out @ [ConsoleErrorExn e,
                    ConsoleError (''This failed on email with subject: '' @ subject email)]))"
  by (auto simp: scanEmail_def Let_def split: prod.splits sum.splits)

theorem scanEmail_never_throws_witness:
  "isAmazonEmail (sampleEmail ''auto-confirm@amazon.com'' None)
   \<and> scanDocument (sampleHost ''$42.10'')
        (load (sampleHost ''$42.10'')
           (replaceForwarded (body (sampleEmail ''auto-confirm@amazon.com'' None))))
        (sampleEmail ''auto-confirm@amazon.com'' None) = (Inl RangeError, [])
   \<and> scanEmail (sampleHost ''$42.10'') (sampleEmail ''auto-confirm@amazon.com'' None) =
       (Inr None,
        [ConsoleErrorExn RangeError,
         ConsoleError ''This failed on email with subject: Your Amazon.com order''])"
proof -
  let ?h = "sampleHost ''$42.10''"
  let ?e = "sampleEmail ''auto-confirm@amazon.com'' None"
  have a: "isAmazonEmail ?e" by code_simp
  have b: "scanDocument ?h (load ?h (replaceForwarded (body ?e))) ?e = (Inl RangeError, [])"
    by code_simp
  have s: "subject ?e = ''Your Amazon.com order''" by (simp add: sampleEmail_def)
  from scanEmail_never_throws [of ?h ?e RangeError "[]"] a b
  have "scanEmail ?h ?e =
       (Inr None,
        [] @ [ConsoleErrorExn RangeError,
         ConsoleError (''This failed on email with subject: '' @ subject ?e)])"
    by blast
  then have "scanEmail ?h ?e =
       (Inr None,
        [ConsoleErrorExn RangeError,
         ConsoleError ''This failed on email with subject: Your Amazon.com order''])"
    unfolding s by simp
  with a b show ?thesis by (intro conjI)
qed

section \<open>The amount\<close>

lemma matchDollar_skip: "c \<noteq> CHR 0x24 \<Longrightarrow> matchDollar (c # cs) = matchDollar cs"
  by (simp add: Let_def)

lemma matchDollar_here: "matchDollar (''$42.10'' @ v) = Some ''42.10''"
  by (simp add: isDigit_def Let_def)

declare matchDollar.simps [simp del]

lemma matchDollar_append: "CHR 0x24 \<notin> set u \<Longrightarrow> matchDollar (u @ w) = matchDollar w"
proof (induction u)
  case Nil
  show ?case by simp
next
  case (Cons c u)
  from Cons.prems have c: "c \<noteq> CHR 0x24" and u: "CHR 0x24 \<notin> set u" by auto
  have "matchDollar ((c # u) @ w) = matchDollar (u @ w)"
    by (simp only: append_Cons matchDollar_skip [OF c])
  with Cons.IH [OF u] show ?case by simp
qed

lemma matchDollar_first:
  assumes "CHR 0x24 \<notin> set u"
  shows "matchDollar (u @ ''$42.10'' @ v) = Some ''42.10''"
proof -
  have "matchDollar (u @ ''$42.10'' @ v) = matchDollar (''$42.10'' @ v)"
    using assms by (rule matchDollar_append)
  also have "\<dots> = Some ''42.10''"
    by (rule matchDollar_here)
  finally show ?thesis .
qed

lemma totalFromTables_skip:
  "\<not> includes_str x ''Total'' \<or> matchDollar x = None \<Longrightarrow>
     totalFromTables (x # rest) = totalFromTables rest"
  by auto

lemma totalFromTables_first:
  assumes "\<forall>x\<in>set before. \<not> includes_str x ''Total'' \<or> matchDollar x = None"
    and "includes_str text ''Total''" and "matchDollar text = Some m"
  shows "totalFromTables (before @ text # after) = parseFloat m"
  using assms(1)
proof (induction before)
  case Nil
  from assms(2,3) show ?case by simp
next
  case (Cons x before)
  from Cons.prems have x: "\<not> includes_str x ''Total'' \<or> matchDollar x = None"
    and rest: "\<forall>x\<in>set before. \<not> includes_str x ''Total'' \<or> matchDollar x = None"
    by simp_all
  show ?case
    by (simp only: append_Cons totalFromTables_skip [OF x] Cons.IH [OF rest])
qed

lemma parseFloat_42_10: "parseFloat ''42.10'' = Fin (5925048259759309 / 140737488355328)"
  by code_simp

lemma milli_42_10:
  "js_neg (js_mul (Fin (5925048259759309 / 140737488355328)) (Fin 1000)) = Fin (- 42100)"
  by code_simp

text \<open>
  C2, as the code has it. For a message that passes the sender test and has a valid
  date, whose first table with "Total" and a dollar amount reads \<open>\<dollar>42.10\<close> as its
  first amount, and whose product links give Widget A and Widget B, the order has the
  amount -42100 and these items. The amount is binary64 arithmetic,
  \<open>-(parseFloat("42.10") * 1000)\<close>: the product of the double nearest 42.1 by 1000
  rounds to 42100 exactly.
\<close>

theorem scanEmail_fixture:
  assumes "isAmazonEmail email"
    and "load host (replaceForwarded (body email)) = doc"
    and "tableTexts doc = before @ text # after"
    and "\<forall>x\<in>set before. \<not> includes_str x ''Total'' \<or> matchDollar x = None"
    and "includes_str text ''Total''"
    and "text = u @ ''$42.10'' @ v" and "CHR 0x24 \<notin> set u"
    and "itemsFromAnchors (anchors doc) = [''Widget A'', ''Widget B'']"
    and "attributes_date email = Some t" and "setHoursMidnight host t = Some d"
  shows "scanEmail host email =
     (Inr (Some \<lparr>date = Some d, amount = Fin (- 42100), items = [''Widget A'', ''Widget B'']\<rparr>),
      [ConsoleInfoFound (Fin (5925048259759309 / 140737488355328)) d [''Widget A'', ''Widget B'']])"
proof -
  have m: "matchDollar text = Some ''42.10''"
    unfolding assms(6) using assms(7) by (rule matchDollar_first)
  have total: "totalFromTables (tableTexts doc) = Fin (5925048259759309 / 140737488355328)"
    unfolding assms(3) totalFromTables_first [OF assms(4,5) m] by (rule parseFloat_42_10)
  have nz: "\<not> js_eq (Fin (5925048259759309 / 140737488355328)) (Fin 0)"
    by (simp add: js_eq_def)
  have len: "length [''Widget A'', ''Widget B''] \<noteq> 0"
    by simp
  have "scanDocument host doc email =
     (Inr (Some \<lparr>date = Some d, amount = Fin (- 42100), items = [''Widget A'', ''Widget B'']\<rparr>),
      [ConsoleInfoFound (Fin (5925048259759309 / 140737488355328)) d [''Widget A'', ''Widget B'']])"
    unfolding scanDocument_def total assms(8,9) Let_def
    by (simp only: nz len if_False milli_42_10 option.case assms(10))
  with assms(1,2) show ?thesis
    by (simp only: scanEmail_def Let_def not_True_eq_False if_False prod.case sum.case)
qed

theorem scanEmail_fixture_witness:
  "isAmazonEmail (sampleEmail ''auto-confirm@amazon.com'' (Some 1705312800000))
   \<and> tableTexts (sampleDocument ''$42.10'') = [''Items Ordered'', ''Order Total: $42.10 Thank you'']
   \<and> matchDollar ''Items Ordered'' = None
   \<and> includes_str ''Order Total: $42.10 Thank you'' ''Total''
   \<and> itemsFromAnchors (anchors (sampleDocument ''$42.10'')) = [''Widget A'', ''Widget B'']
   \<and> setHoursMidnight (sampleHost ''$42.10'') 1705312800000 = Some 1705276800000
   \<and> scanEmail (sampleHost ''$42.10'') (sampleEmail ''auto-confirm@amazon.com'' (Some 1705312800000)) =
       (Inr (Some \<lparr>date = Some 1705276800000, amount = Fin (- 42100),
                    items = [''Widget A'', ''Widget B'']\<rparr>),
        [ConsoleInfoFound (Fin (5925048259759309 / 140737488355328)) 1705276800000
           [''Widget A'', ''Widget B'']])"
proof -
  let ?e = "sampleEmail ''auto-confirm@amazon.com'' (Some 1705312800000)"
  let ?h = "sampleHost ''$42.10''"
  let ?doc = "sampleDocument ''$42.10''"
  have h1: "isAmazonEmail ?e" by code_simp
  have h2: "load ?h (replaceForwarded (body ?e)) = ?doc" by (simp add: sampleHost_def)
  have tt: "tableTexts ?doc = [''Items Ordered'', ''Order Total: $42.10 Thank you'']"
    by (simp add: sampleDocument_def)
  have h3: "tableTexts ?doc = [''Items Ordered''] @ ''Order Total: $42.10 Thank you'' # []"
    by (simp add: sampleDocument_def)
  have md: "matchDollar ''Items Ordered'' = None" by code_simp
  then have h4: "\<forall>x\<in>set [''Items Ordered'']. \<not> includes_str x ''Total'' \<or> matchDollar x = None"
    by simp
  have h5: "includes_str ''Order Total: $42.10 Thank you'' ''Total''" by code_simp
  have h6: "''Order Total: $42.10 Thank you'' = ''Order Total: '' @ ''$42.10'' @ '' Thank you''"
    by simp
  have h7: "CHR 0x24 \<notin> set ''Order Total: ''" by simp
  have h8: "itemsFromAnchors (anchors ?doc) = [''Widget A'', ''Widget B'']" by code_simp
  have h9: "attributes_date ?e = Some 1705312800000" by (simp add: sampleEmail_def)
  have h10: "setHoursMidnight ?h 1705312800000 = Some 1705276800000"
    by (simp add: sampleHost_def)
  note scanEmail_fixture [OF h1 h2 h3 h4 h5 h6 h7 h8 h9 h10]
  with h1 tt md h5 h8 h10 show ?thesis by (intro conjI)
qed

text \<open>
  C2 as stated fails in its second half: the arithmetic is floating point, and for the
  total \<open>\<dollar>2.01\<close> the amount is not a whole number of milli-units but the double
  just below 2010, negated.
\<close>

theorem scanEmail_amount_not_integer:
  "fst (scanEmail (sampleHost ''$2.01'') (sampleEmail ''auto-confirm@amazon.com'' (Some 1705312800000))) =
     Inr (Some \<lparr>date = Some 1705276800000,
                 amount = Fin (- (8840073487319039 / 4398046511104)),
                 items = [''Widget A'', ''Widget B'']\<rparr>)
   \<and> (2009 :: rat) < 8840073487319039 / 4398046511104
   \<and> (8840073487319039 / 4398046511104 :: rat) < 2010"
proof (intro conjI)
  show "fst (scanEmail (sampleHost ''$2.01'') (sampleEmail ''auto-confirm@amazon.com'' (Some 1705312800000))) =
     Inr (Some \<lparr>date = Some 1705276800000,
                 amount = Fin (- (8840073487319039 / 4398046511104)),
                 items = [''Widget A'', ''Widget B'']\<rparr>)"
    by code_simp
  show "(2009 :: rat) < 8840073487319039 / 4398046511104" by simp
  show "(8840073487319039 / 4398046511104 :: rat) < 2010" by simp
qed

end
